theory Spec2Isabelle
  imports Main
begin

section \<open>Python values used by the build service models\<close>

text \<open>
  The module \<^verbatim>\<open>aasemble/django/apps/buildsvc/models.py\<close> is Python 2 code on top of
  Django. Strings are modelled as \<open>string\<close>, nullable columns as \<open>option\<close>,
  Python integers as \<open>int\<close>, and every exception as a value of \<open>error\<close>.
\<close>

datatype error =
    CommandFailed "string list"
  | IndexError
  | KeyError string
  | IOError string
  | NoBuilderFound
  | BuilderFailed string
  | TypeError
  | IntegrityError
  | DataError
  | DatabaseError

subsection \<open>String formatting\<close>

definition digit_char :: "nat \<Rightarrow> char" where
  "digit_char d = ''0123456789'' ! d"

fun str_nat :: "nat \<Rightarrow> string" where
  "str_nat n =
     (if n < 10 then [digit_char n] else str_nat (n div 10) @ [digit_char (n mod 10)])"

declare str_nat.simps [simp del]

text \<open>\<^verbatim>\<open>'%s' % i\<close> for a Python integer: decimal digits, with a sign when negative.\<close>

definition str_int :: "int \<Rightarrow> string" where
  "str_int i = (if i < 0 then CHR ''-'' # str_nat (nat (- i)) else str_nat (nat i))"

text \<open>\<^verbatim>\<open>'%s' % v\<close> for a nullable text column: \<^verbatim>\<open>None\<close> is rendered as the text None.\<close>

definition str_opt :: "string option \<Rightarrow> string" where
  "str_opt v = (case v of None \<Rightarrow> ''None'' | Some s \<Rightarrow> s)"

text \<open>Truth value of a nullable text column: \<^verbatim>\<open>None\<close> and the empty string are false.\<close>

definition truthy :: "string option \<Rightarrow> bool" where
  "truthy v = (case v of None \<Rightarrow> False | Some s \<Rightarrow> s \<noteq> [])"

subsection \<open>String methods\<close>

text \<open>\<^verbatim>\<open>s.split(c)\<close> with a one-character separator; the result is never empty.\<close>

fun split_on :: "char \<Rightarrow> string \<Rightarrow> string list" where
  "split_on c [] = [[]]"
| "split_on c (x # xs) =
     (if x = c then [] # split_on c xs
      else (case split_on c xs of [] \<Rightarrow> [[x]] | y # ys \<Rightarrow> (x # y) # ys))"

text \<open>\<^verbatim>\<open>sep.join(xs)\<close>.\<close>

fun join_with :: "string \<Rightarrow> string list \<Rightarrow> string" where
  "join_with sep [] = []"
| "join_with sep [x] = x"
| "join_with sep (x # y # ys) = x @ sep @ join_with sep (y # ys)"

text \<open>\<^verbatim>\<open>xs[0]\<close>, which raises \<^verbatim>\<open>IndexError\<close> on an empty list.\<close>

definition index0 :: "'a list \<Rightarrow> error + 'a" where
  "index0 xs = (case xs of [] \<Rightarrow> Inl IndexError | x # _ \<Rightarrow> Inr x)"

definition startswith :: "string \<Rightarrow> string \<Rightarrow> bool" where
  "startswith s p = (take (length p) s = p)"

definition endswith :: "string \<Rightarrow> string \<Rightarrow> bool" where
  "endswith s p = (length p \<le> length s \<and> drop (length s - length p) s = p)"

text \<open>\<^verbatim>\<open>os.path.join(a, b)\<close> of \<^verbatim>\<open>posixpath\<close> for two components.\<close>

definition path_join :: "string \<Rightarrow> string \<Rightarrow> string" where
  "path_join a b =
     (if startswith b ''/'' then b
      else if a = [] \<or> endswith a ''/'' then a @ b
      else a @ ''/'' @ b)"

definition TAB :: char where
  "TAB = CHR 0x09"

section \<open>The data model\<close>

record external_dependency =
  ed_url :: string
  ed_series :: string
  ed_components :: "string option"
  ed_key :: string

record package_source =
  ps_id :: nat
  git_url :: string
  branch :: string
  last_seen_revision :: "string option"
  last_built_version :: "string option"
  last_built_name :: "string option"
  build_counter :: int

record build_record =
  br_source :: nat
  br_version :: "string option"
  br_build_counter :: int
  br_sha :: "string option"

text \<open>
  A \<^verbatim>\<open>BuildRecord\<close> object in memory has, besides its columns, the attributes
  \<^verbatim>\<open>_logger\<close> and \<^verbatim>\<open>_saved_logpath\<close> that \<^verbatim>\<open>__init__\<close> sets to \<^verbatim>\<open>None\<close>. A logger
  is identified by its name in the registry of \<^verbatim>\<open>logging\<close>.
\<close>

record build_record_obj = build_record +
  br_logger :: "string option"
  br_saved_logpath :: "string option"

text \<open>The table of package sources: \<^verbatim>\<open>self.save()\<close> writes the row of the object's id.\<close>

type_synonym source_table = "nat \<rightharpoonup> package_source"

definition save_source :: "package_source \<Rightarrow> source_table \<Rightarrow> source_table" where
  "save_source self db = db(ps_id self \<mapsto> self)"

section \<open>ExternalDependency.deb_line\<close>

definition deb_line :: "external_dependency \<Rightarrow> string" where
  "deb_line self =
     ''deb '' @ ed_url self @ '' '' @ ed_series self @ '' '' @ str_opt (ed_components self)"

section \<open>PackageSource.long_name and BuildRecord.logpath\<close>

text \<open>
  \<^verbatim>\<open>'_'.join(filter(bool, urlparse(self.git_url).path.split('/')))\<close>. The argument is
  the path component that the library function \<^verbatim>\<open>urlparse\<close> returns for \<^verbatim>\<open>git_url\<close>.
\<close>

definition long_name :: "string \<Rightarrow> string" where
  "long_name url_path = join_with ''_'' (filter (\<lambda>s. s \<noteq> []) (split_on CHR ''/'' url_path))"

text \<open>The first argument is \<^verbatim>\<open>self.source.long_name\<close>.\<close>

definition logpath :: "string \<Rightarrow> 'a build_record_scheme \<Rightarrow> string" where
  "logpath source_long_name self =
     (if truthy (br_version self)
      then path_join source_long_name
             (source_long_name @ ''_'' @ str_opt (br_version self) @ ''.log'')
      else path_join source_long_name
             (source_long_name @ ''_'' @ str_int (br_build_counter self) @ ''.tmp.log''))"

section \<open>PackageSource.poll\<close>

text \<open>
  \<^verbatim>\<open>run_cmd\<close> lives outside this module; it is a parameter that maps a command line
  to its standard output or to the error it raises. The state is the object in memory
  and the table it is saved to; the \<^verbatim>\<open>save()\<close> of \<^verbatim>\<open>poll\<close> is taken to succeed.
\<close>

type_synonym run_cmd = "string list \<Rightarrow> error + string"

definition poll_cmd :: "package_source \<Rightarrow> string list" where
  "poll_cmd self = [''git'', ''ls-remote'', git_url self, ''refs/heads/'' @ branch self]"

definition poll ::
  "run_cmd \<Rightarrow> package_source \<times> source_table \<Rightarrow> (error + bool) \<times> package_source \<times> source_table"
where
  "poll run self_db =
     (case self_db of (self, db) \<Rightarrow>
       (case run (poll_cmd self) of
          Inl e \<Rightarrow> (Inl e, self, db)
        | Inr stdout \<Rightarrow>
            (case index0 (split_on TAB stdout) of
               Inl e \<Rightarrow> (Inl e, self, db)
             | Inr sha \<Rightarrow>
                 if Some sha = last_seen_revision self then (Inr False, self, db)
                 else
                   (let self' = self\<lparr>last_seen_revision := Some sha\<rparr>
                    in (Inr True, self', save_source self' db)))))"

section \<open>Upload manifests and remove_ddebs_from_changes\<close>

text \<open>
  A \<^verbatim>\<open>deb822.Changes\<close> object is a dictionary. Its multivalued fields (the file and
  checksum sections) parse to lists of dictionaries, one per line; every other field is
  text. The file on disk is modelled by the parsed manifest, so reading it and writing
  \<^verbatim>\<open>changes.dump()\<close> back are lookup and update of the manifest at that path.
\<close>

text \<open>
  The keys of a \<^verbatim>\<open>deb822\<close> dictionary are compared without regard to case (lower case
  of the ASCII letters); an assignment to a key that is present keeps the spelling and
  the position the key has.
\<close>

definition lower_char :: "char \<Rightarrow> char" where
  "lower_char c =
     (case map_of (zip ''ABCDEFGHIJKLMNOPQRSTUVWXYZ'' ''abcdefghijklmnopqrstuvwxyz'') c of
        None \<Rightarrow> c
      | Some l \<Rightarrow> l)"

definition lower :: "string \<Rightarrow> string" where
  "lower s = map lower_char s"

fun ci_lookup :: "(string \<times> 'v) list \<Rightarrow> string \<Rightarrow> 'v option" where
  "ci_lookup [] k = None"
| "ci_lookup ((k', v) # kvs) k = (if lower k' = lower k then Some v else ci_lookup kvs k)"

fun ci_update :: "string \<Rightarrow> 'v \<Rightarrow> (string \<times> 'v) list \<Rightarrow> (string \<times> 'v) list" where
  "ci_update k v [] = [(k, v)]"
| "ci_update k v ((k', v') # kvs) =
     (if lower k' = lower k then (k', v) # kvs else (k', v') # ci_update k v kvs)"

type_synonym entry = "(string \<times> string) list"

record manifest =
  multivalued :: "(string \<times> entry list) list"
  plain_fields :: "(string \<times> string) list"

text \<open>
  \<^verbatim>\<open>[f for f in entries if not f['name'].endswith('.ddeb')]\<close>; an entry without the
  key \<^verbatim>\<open>name\<close> raises \<^verbatim>\<open>KeyError\<close>.
\<close>

fun without_ddebs :: "entry list \<Rightarrow> error + entry list" where
  "without_ddebs [] = Inr []"
| "without_ddebs (f # fs) =
     (case ci_lookup f ''name'' of
        None \<Rightarrow> Inl (KeyError ''name'')
      | Some n \<Rightarrow>
          (case without_ddebs fs of
             Inl e \<Rightarrow> Inl e
           | Inr fs' \<Rightarrow> if \<not> endswith n ''.ddeb'' then Inr (f # fs') else Inr fs'))"

text \<open>The loop over the section names, on the parsed manifest.\<close>

fun strip_sections :: "string list \<Rightarrow> manifest \<Rightarrow> error + manifest" where
  "strip_sections [] changes = Inr changes"
| "strip_sections (section # rest) changes =
     (case ci_lookup (multivalued changes) section of
        None \<Rightarrow> strip_sections rest changes
      | Some entries \<Rightarrow>
          (case without_ddebs entries of
             Inl e \<Rightarrow> Inl e
           | Inr new_section \<Rightarrow>
               strip_sections rest
                 (changes\<lparr>multivalued := ci_update section new_section (multivalued changes)\<rparr>)))"

definition ddeb_sections :: "string list" where
  "ddeb_sections = [''Checksums-Sha1'', ''Checksums-Sha256'', ''Files'']"

section \<open>State of the service and its external tools\<close>

text \<open>
  The state holds what the code reads and writes: the database rows, the repository
  object's \<^verbatim>\<open>key_id\<close>, the files it touches, the package pool and published index
  that the repository tool keeps, the temporary directories, and the log files with the
  handlers of the \<^verbatim>\<open>logging\<close> registry. \<open>key_id\<close> is the attribute of the repository
  object and \<open>key_id_row\<close> its column; \<open>outdir_exists\<close> says whether the export
  directory exists. \<open>clock\<close> counts the calls made to code outside this module; the
  outcome of such a call may depend on it.
\<close>

record world =
  clock :: nat
  source_rows :: source_table
  record_rows :: "build_record list"
  key_id :: "string option"
  key_id_row :: "string option"
  conf_rendered :: bool
  outdir_exists :: bool
  key_file :: "string option"
  manifests :: "string \<rightharpoonup> manifest"
  pool :: "(string \<times> manifest) list"
  index :: "(string \<times> manifest) list"
  tmpdirs :: "string set"
  log_dir :: "string \<rightharpoonup> nat"
  log_data :: "string list list"
  log_handlers :: "string \<Rightarrow> nat list"

datatype driver = FakeDriver | RepreproDriver

text \<open>
  What the builder of \<^verbatim>\<open>pkgbuild\<close> did: the version it set on the build record, the
  files it left at the top level of the temporary directory (in the order in which
  \<^verbatim>\<open>os.listdir\<close> returns them), and the exception it raised, if any.
\<close>

record build_outcome =
  bo_version :: "string option"
  bo_files :: "(string \<times> manifest) list"
  bo_error :: "error option"

text \<open>
  The settings and the code outside this module. \<^verbatim>\<open>run_cmd\<close> and
  \<^verbatim>\<open>recursive_render\<close> come from \<^verbatim>\<open>utils\<close>, \<^verbatim>\<open>mkdtemp\<close> from the standard library;
  \<open>save_error\<close> is the error with which the database refuses a \<^verbatim>\<open>save()\<close>, if it
  does.
\<close>

record env =
  run_cmd_at :: "nat \<Rightarrow> run_cmd"
  recursive_render :: "nat \<Rightarrow> error option"
  save_error :: "nat \<Rightarrow> error option"
  mkdtemp_name :: "nat \<Rightarrow> string"
  urlparse_path :: "string \<Rightarrow> string"
  repo_driver :: driver
  basedir :: string
  outdir :: string
  choose_builder :: "nat \<Rightarrow> string \<Rightarrow> error option"
  builder_build :: "nat \<Rightarrow> build_outcome"

text \<open>
  What the model takes for granted about that code: \<^verbatim>\<open>shutil.rmtree\<close>, \<^verbatim>\<open>os.rename\<close>,
  \<^verbatim>\<open>os.makedirs\<close> and opening a log file do not raise; a repository tool command that
  fails leaves the pool and the published index as they were; the builder writes neither
  the table of package sources nor the repository; the database enforces the range of
  an integer column and the \<^verbatim>\<open>NOT NULL\<close> of a column, and the length limits of the
  text columns are not checked.
\<close>

subsection \<open>Statements that may raise\<close>

type_synonym 'a action = "world \<Rightarrow> (error + 'a) \<times> world"

definition ret :: "'a \<Rightarrow> 'a action" where
  "ret x w = (Inr x, w)"

definition raise :: "error \<Rightarrow> 'a action" where
  "raise e w = (Inl e, w)"

text \<open>Sequencing: an exception of the first statement skips the rest.\<close>

definition then_do :: "'a action \<Rightarrow> ('a \<Rightarrow> 'b action) \<Rightarrow> 'b action" where
  "then_do m f w = (case m w of (Inl e, w') \<Rightarrow> (Inl e, w') | (Inr x, w') \<Rightarrow> f x w')"

text \<open>\<^verbatim>\<open>try: m finally: cleanup\<close>.\<close>

definition try_finally :: "'a action \<Rightarrow> (world \<Rightarrow> world) \<Rightarrow> 'a action" where
  "try_finally m cleanup w = (case m w of (r, w') \<Rightarrow> (r, cleanup w'))"

text \<open>\<^verbatim>\<open>try: m except: cleanup; raise\<close>.\<close>

definition try_except_reraise :: "'a action \<Rightarrow> (world \<Rightarrow> world) \<Rightarrow> 'a action" where
  "try_except_reraise m cleanup w =
     (case m w of (Inl e, w') \<Rightarrow> (Inl e, cleanup w') | (Inr x, w') \<Rightarrow> (Inr x, w'))"

definition modify :: "(world \<Rightarrow> world) \<Rightarrow> unit action" where
  "modify f w = (Inr (), f w)"

text \<open>
  \<^verbatim>\<open>save()\<close> of a model object inside \<^verbatim>\<open>build_real\<close> and \<^verbatim>\<open>export\<close>: the database may
  refuse it, and it refuses a row that violates a constraint of its columns. Only an
  accepted save stores the row.
\<close>

definition db_save :: "env \<Rightarrow> error option \<Rightarrow> (world \<Rightarrow> world) \<Rightarrow> unit action" where
  "db_save env violation store w =
     (case save_error env (clock w) of
        Some e \<Rightarrow> (Inl e, w\<lparr>clock := Suc (clock w)\<rparr>)
      | None \<Rightarrow>
          (case violation of
             Some e \<Rightarrow> (Inl e, w\<lparr>clock := Suc (clock w)\<rparr>)
           | None \<Rightarrow> (Inr (), store (w\<lparr>clock := Suc (clock w)\<rparr>))))"

text \<open>The values an \<^verbatim>\<open>IntegerField\<close> column holds.\<close>

definition in_integer_range :: "int \<Rightarrow> bool" where
  "in_integer_range i = (- 2147483648 \<le> i \<and> i \<le> 2147483647)"

text \<open>\<^verbatim>\<open>run_cmd(cmd)\<close>: the output, or the exception of a command that fails.\<close>

definition run_cmd :: "env \<Rightarrow> string list \<Rightarrow> string action" where
  "run_cmd env cmd w = (run_cmd_at env (clock w) cmd, w\<lparr>clock := Suc (clock w)\<rparr>)"

section \<open>Repository\<close>

definition NL :: char where
  "NL = CHR 0x0A"

definition index_at :: "'a list \<Rightarrow> nat \<Rightarrow> error + 'a" where
  "index_at xs i = (if i < length xs then Inr (xs ! i) else Inl IndexError)"

text \<open>
  The loop of \<^verbatim>\<open>RepreproDriver.generate_key\<close> over the lines of the output; falling
  off its end returns \<^verbatim>\<open>None\<close>.
\<close>

fun key_of_output :: "string list \<Rightarrow> error + string option" where
  "key_of_output [] = Inr None"
| "key_of_output (l # ls) =
     (if startswith l ''gpg: key ''
      then (case index_at (split_on CHR '' '' l) 2 of Inl e \<Rightarrow> Inl e | Inr k \<Rightarrow> Inr (Some k))
      else key_of_output ls)"

definition generate_key :: "env \<Rightarrow> string option action" where
  "generate_key env =
     (case repo_driver env of
        FakeDriver \<Rightarrow> ret (Some ''FAKEID'')
      | RepreproDriver \<Rightarrow>
          then_do (run_cmd env [''gpg'', ''--batch'', ''--gen-key''])
            (\<lambda>output. case key_of_output (split_on NL output) of
                         Inl e \<Rightarrow> raise e | Inr k \<Rightarrow> ret k))"

text \<open>\<^verbatim>\<open>Repository.save()\<close>: the column \<^verbatim>\<open>key_id\<close> is not nullable.\<close>

definition save_repository :: "env \<Rightarrow> unit action" where
  "save_repository env w =
     db_save env (case key_id w of None \<Rightarrow> Some IntegrityError | Some k \<Rightarrow> None)
       (\<lambda>w. w\<lparr>key_id_row := key_id w\<rparr>) w"

definition ensure_key :: "env \<Rightarrow> unit action" where
  "ensure_key env w =
     (if \<not> truthy (key_id w)
      then then_do (generate_key env) (\<lambda>k.
           then_do (modify (\<lambda>w. w\<lparr>key_id := k\<rparr>)) (\<lambda>_.
           save_repository env)) w
      else ret () w)"

definition ensure_directory_structure :: "env \<Rightarrow> unit action" where
  "ensure_directory_structure env w =
     (case recursive_render env (clock w) of
        Some e \<Rightarrow> (Inl e, w\<lparr>clock := Suc (clock w)\<rparr>)
      | None \<Rightarrow> (Inr (), w\<lparr>clock := Suc (clock w), conf_rendered := True\<rparr>))"

definition reprepro :: "env \<Rightarrow> string list \<Rightarrow> string action" where
  "reprepro env args = run_cmd env ([''reprepro'', ''-b'', basedir env] @ args)"

text \<open>
  \<open>key_file\<close> is the content of \<^verbatim>\<open><outdir>/repo.key\<close>, \<open>None\<close> when the file does
  not exist. A \<^verbatim>\<open>key_id\<close> of \<^verbatim>\<open>None\<close> is not a valid command argument. Opening the
  file for writing raises \<^verbatim>\<open>IOError\<close> when the export directory does not exist;
  \<^verbatim>\<open>export_key\<close> does not create it.
\<close>

definition export_key :: "env \<Rightarrow> unit action" where
  "export_key env w =
     (if key_file w = None
      then (case key_id w of
              None \<Rightarrow> raise TypeError w
            | Some k \<Rightarrow>
                then_do (run_cmd env [''gpg'', ''-a'', ''--export'', k])
                  (\<lambda>output w.
                     if outdir_exists w then (Inr (), w\<lparr>key_file := Some output\<rparr>)
                     else (Inl (IOError (path_join (outdir env) ''repo.key'')), w)) w)
      else ret () w)"

text \<open>A successful \<^verbatim>\<open>reprepro export\<close> publishes the index of the pool.\<close>

definition export :: "env \<Rightarrow> unit action" where
  "export env =
     then_do (ensure_key env) (\<lambda>_.
     then_do (ensure_directory_structure env) (\<lambda>_.
     then_do (export_key env) (\<lambda>_.
     then_do (reprepro env [''export'']) (\<lambda>_.
     modify (\<lambda>w. w\<lparr>index := pool w\<rparr>)))))"

definition remove_ddebs_from_changes :: "string \<Rightarrow> unit action" where
  "remove_ddebs_from_changes changes_file w =
     (case manifests w changes_file of
        None \<Rightarrow> (Inl (IOError changes_file), w)
      | Some changes \<Rightarrow>
          (case strip_sections ddeb_sections changes of
             Inl e \<Rightarrow> (Inl e, w)
           | Inr changes' \<Rightarrow> (Inr (), w\<lparr>manifests := (manifests w)(changes_file \<mapsto> changes')\<rparr>)))"

text \<open>
  A successful \<^verbatim>\<open>reprepro include\<close> adds the manifest, as it is on disk at that
  moment, to the pool of the distribution.
\<close>

definition include_changes :: "env \<Rightarrow> string \<Rightarrow> string \<Rightarrow> unit action" where
  "include_changes env series_name changes_file =
     then_do (reprepro env [''--ignore=wrongdistribution'', ''include'', series_name, changes_file])
       (\<lambda>_ w. case manifests w changes_file of
                None \<Rightarrow> (Inr (), w)
              | Some changes \<Rightarrow> (Inr (), w\<lparr>pool := pool w @ [(series_name, changes)]\<rparr>))"

definition process_changes :: "env \<Rightarrow> string \<Rightarrow> string \<Rightarrow> unit action" where
  "process_changes env series_name changes_file =
     then_do (ensure_directory_structure env) (\<lambda>_.
     then_do (remove_ddebs_from_changes changes_file) (\<lambda>_.
     then_do (include_changes env series_name changes_file) (\<lambda>_.
     export env)))"

section \<open>BuildRecord.logger\<close>

text \<open>
  Log files are modelled as the operating system has them: \<open>log_dir\<close> maps a path to
  the number of a file, \<open>log_data\<close> holds the lines of each file, and a
  \<^verbatim>\<open>FileHandler\<close> is the file it has opened for appending (it keeps writing to that
  file when the path is renamed). \<open>log_handlers\<close> are the handler lists of the named
  loggers. Of the directories only the export directory is modelled: \<^verbatim>\<open>buildlog()\<close>
  creates the directory of the log path below it, and so the export directory itself.
\<close>

text \<open>\<^verbatim>\<open>self.git_url.split('/')[-1].replace('_', '-')\<close>; the split is never empty.\<close>

definition source_name :: "package_source \<Rightarrow> string" where
  "source_name self =
     map (\<lambda>c. if c = CHR ''_'' then CHR ''-'' else c) (last (split_on CHR ''/'' (git_url self)))"

definition buildlogdir :: "env \<Rightarrow> string" where
  "buildlogdir env = path_join (outdir env) ''buildlogs''"

definition buildlog :: "env \<Rightarrow> package_source \<Rightarrow> 'a build_record_scheme \<Rightarrow> string" where
  "buildlog env source self =
     path_join (buildlogdir env) (logpath (long_name (urlparse_path env (git_url source))) self)"

text \<open>\<^verbatim>\<open>os.rename(old, new)\<close> for an existing \<open>old\<close>; an existing \<open>new\<close> is replaced.\<close>

definition rename :: "string \<Rightarrow> string \<Rightarrow> world \<Rightarrow> world" where
  "rename old new w =
     (case log_dir w old of
        None \<Rightarrow> w
      | Some file \<Rightarrow> w\<lparr>log_dir := ((log_dir w)(old := None))(new \<mapsto> file)\<rparr>)"

text \<open>
  \<^verbatim>\<open>for handler in logger.handlers: logger.removeHandler(handler)\<close>. The list iterator
  is an index into the list that the body shortens: the handler at index \<open>i\<close> is
  removed, then the index moves on.
\<close>

function remove_handlers :: "nat \<Rightarrow> nat list \<Rightarrow> nat list" where
  "remove_handlers i hs =
     (if i < length hs then remove_handlers (Suc i) (take i hs @ drop (Suc i) hs) else hs)"
  by pat_completeness auto
termination
  by (relation "measure (\<lambda>(i, hs). length hs - i)") auto

declare remove_handlers.simps [simp del]

text \<open>
  \<^verbatim>\<open>logging.FileHandler(path)\<close> opens the file for appending and creates it when it
  does not exist.
\<close>

definition file_handler :: "string \<Rightarrow> world \<Rightarrow> nat \<times> world" where
  "file_handler path w =
     (case log_dir w path of
        Some file \<Rightarrow> (file, w)
      | None \<Rightarrow>
          (length (log_data w),
           w\<lparr>log_dir := (log_dir w)(path \<mapsto> length (log_data w)),
             log_data := log_data w @ [[]]\<rparr>))"

definition logger_name :: "package_source \<Rightarrow> 'a build_record_scheme \<Rightarrow> string" where
  "logger_name source self =
     ''buildsvc.pkgbuild.'' @ source_name source @ ''_'' @ str_int (br_build_counter self)"

text \<open>The property \<^verbatim>\<open>BuildRecord.logger\<close>: the logger, the object and the state after it.\<close>

definition logger ::
  "env \<Rightarrow> package_source \<Rightarrow> build_record_obj \<Rightarrow> world \<Rightarrow> string option \<times> build_record_obj \<times> world"
where
  "logger env source self w0 =
     (let logpath = buildlog env source self;
          w = w0\<lparr>outdir_exists := True\<rparr>
      in
      if \<not> Some logpath = br_saved_logpath self then
        (let w1 = (case br_saved_logpath self of
                     None \<Rightarrow> w
                   | Some saved \<Rightarrow>
                       if saved \<noteq> [] \<and> log_dir w saved \<noteq> None
                       then rename saved (buildlog env source self) w else w);
             name = logger_name source self;
             w2 = w1\<lparr>log_handlers :=
                       (log_handlers w1)(name := remove_handlers 0 (log_handlers w1 name))\<rparr>;
             (logfp, w3) = file_handler logpath w2;
             w4 = w3\<lparr>log_handlers := (log_handlers w3)(name := log_handlers w3 name @ [logfp])\<rparr>
         in (Some name, self\<lparr>br_logger := Some name, br_saved_logpath := Some logpath\<rparr>, w4))
      else (br_logger self, self, w))"

text \<open>
  A record logged through the named logger: every handler of the logger appends the
  line to its file. The line is the formatted record.
\<close>

definition log_line :: "string \<Rightarrow> string \<Rightarrow> world \<Rightarrow> world" where
  "log_line name line w =
     w\<lparr>log_data := fold (\<lambda>file d. d[file := d ! file @ [line]]) (log_handlers w name) (log_data w)\<rparr>"

fun log_lines :: "string \<Rightarrow> string list \<Rightarrow> world \<Rightarrow> world" where
  "log_lines name [] w = w"
| "log_lines name (l # ls) w = log_lines name ls (log_line name l w)"

text \<open>The lines of the log file at a path, when there is one.\<close>

definition read_log :: "world \<Rightarrow> string \<Rightarrow> string list option" where
  "read_log w path = map_option (\<lambda>file. log_data w ! file) (log_dir w path)"

section \<open>PackageSource.checkout and PackageSource.build_real\<close>

definition is_space :: "char \<Rightarrow> bool" where
  "is_space c = (c \<in> set [CHR '' '', CHR 0x09, CHR 0x0A, CHR 0x0B, CHR 0x0C, CHR 0x0D])"

text \<open>\<^verbatim>\<open>s.strip()\<close>.\<close>

definition strip :: "string \<Rightarrow> string" where
  "strip s = rev (dropWhile is_space (rev (dropWhile is_space s)))"

text \<open>
  \<^verbatim>\<open>tempfile.mkdtemp()\<close> creates a directory that did not exist; it raises when it
  finds no unused name.
\<close>

definition mkdtemp :: "env \<Rightarrow> string action" where
  "mkdtemp env w =
     (let d = mkdtemp_name env (clock w) in
      if d \<in> tmpdirs w then (Inl (IOError d), w\<lparr>clock := Suc (clock w)\<rparr>)
      else (Inr d, w\<lparr>clock := Suc (clock w), tmpdirs := insert d (tmpdirs w)\<rparr>))"

text \<open>\<^verbatim>\<open>shutil.rmtree(d)\<close>: the directory and the files below it are gone.\<close>

definition rmtree :: "string \<Rightarrow> world \<Rightarrow> world" where
  "rmtree d w =
     w\<lparr>tmpdirs := tmpdirs w - {d},
       manifests := (\<lambda>p. if startswith p (d @ ''/'') then None else manifests w p)\<rparr>"

text \<open>
  The logger that \<^verbatim>\<open>checkout\<close> hands to \<^verbatim>\<open>run_cmd\<close> is used by \<^verbatim>\<open>run_cmd\<close> only;
  what \<^verbatim>\<open>run_cmd\<close> writes to it is not part of this module.
\<close>

text \<open>The body of the \<^verbatim>\<open>try\<close> statement of \<^verbatim>\<open>checkout\<close>.\<close>

definition checkout_body ::
  "env \<Rightarrow> package_source \<Rightarrow> string option \<Rightarrow> string \<Rightarrow> (string \<times> string \<times> string) action"
where
  "checkout_body env self sha tmpdir =
     then_do (run_cmd env [''git'', ''clone'', git_url self, ''-b'', branch self, ''build'']) (\<lambda>_.
     then_do (if truthy sha
              then then_do (run_cmd env [''git'', ''reset'', ''--hard'', str_opt sha]) (\<lambda>_. ret ())
              else ret ()) (\<lambda>_.
     then_do (run_cmd env [''git'', ''rev-parse'', ''HEAD'']) (\<lambda>stdout.
     ret (tmpdir, path_join tmpdir ''build'', strip stdout))))"

definition checkout :: "env \<Rightarrow> package_source \<Rightarrow> string option \<Rightarrow> (string \<times> string \<times> string) action" where
  "checkout env self sha =
     then_do (mkdtemp env) (\<lambda>tmpdir.
       try_except_reraise (checkout_body env self sha tmpdir) (rmtree tmpdir))"

text \<open>
  \<^verbatim>\<open>self.save()\<close> of the package source in \<^verbatim>\<open>build_real\<close>: \<^verbatim>\<open>build_counter\<close> is an
  \<^verbatim>\<open>IntegerField\<close>.
\<close>

definition save_package_source :: "env \<Rightarrow> package_source \<Rightarrow> unit action" where
  "save_package_source env self =
     db_save env (if in_integer_range (build_counter self) then None else Some DataError)
       (\<lambda>w. w\<lparr>source_rows := save_source self (source_rows w)\<rparr>)"

text \<open>
  \<^verbatim>\<open>br.save()\<close>: the first call inserts the row and gives the record its id, later
  calls update the row. \<^verbatim>\<open>version\<close> is not nullable and \<^verbatim>\<open>build_counter\<close> is an
  \<^verbatim>\<open>IntegerField\<close>.
\<close>

definition record_violation :: "build_record_obj \<Rightarrow> error option" where
  "record_violation br =
     (if br_version br = None then Some IntegrityError
      else if \<not> in_integer_range (br_build_counter br) then Some DataError
      else None)"

definition insert_record :: "env \<Rightarrow> build_record_obj \<Rightarrow> nat action" where
  "insert_record env br w =
     (case db_save env (record_violation br)
             (\<lambda>w. w\<lparr>record_rows := record_rows w @ [build_record.truncate br]\<rparr>) w of
        (Inl e, w') \<Rightarrow> (Inl e, w')
      | (Inr u, w') \<Rightarrow> (Inr (length (record_rows w)), w'))"

definition save_record :: "env \<Rightarrow> nat \<Rightarrow> build_record_obj \<Rightarrow> unit action" where
  "save_record env rid br =
     db_save env (record_violation br)
       (\<lambda>w. w\<lparr>record_rows := (record_rows w)[rid := build_record.truncate br]\<rparr>)"

text \<open>
  Modelled from the spec: the module \<^verbatim>\<open>pkgbuild\<close> (\<^verbatim>\<open>choose_builder\<close> and the builder
  classes) is not part of the sources at hand. The builder is given the working area,
  the package source and the build record; it leaves files at the top level of the
  working area, may set the version of the build record, and may raise. The result is
  the listing of the working area, which also holds the checkout \<^verbatim>\<open>build\<close>.
\<close>

definition builder_build_in :: "env \<Rightarrow> string \<Rightarrow> nat \<Rightarrow> build_record_obj \<Rightarrow> string list action" where
  "builder_build_in env tmpdir rid br w =
     (let outcome = builder_build env (clock w);
          w1 = w\<lparr>clock := Suc (clock w),
                 manifests := fold (\<lambda>(n, m) files. files(path_join tmpdir n \<mapsto> m))
                                (bo_files outcome) (manifests w),
                 record_rows :=
                   (case bo_version outcome of
                      None \<Rightarrow> record_rows w
                    | Some v \<Rightarrow> (record_rows w)[rid := (build_record.truncate br)\<lparr>br_version := Some v\<rparr>])\<rparr>
      in case bo_error outcome of
           Some e \<Rightarrow> (Inl e, w1)
         | None \<Rightarrow> (Inr (map fst (bo_files outcome) @ [''build'']), w1))"

text \<open>
  Lines 291 to 297 of \<^verbatim>\<open>build_real\<close>: choose the builder, build, and collect the names
  of the changes files.
\<close>

definition run_builder :: "env \<Rightarrow> string \<Rightarrow> string \<Rightarrow> nat \<Rightarrow> build_record_obj \<Rightarrow> string list action" where
  "run_builder env tmpdir builddir rid br =
     then_do (\<lambda>w. case choose_builder env (clock w) builddir of
                    Some e \<Rightarrow> (Inl e, w\<lparr>clock := Suc (clock w)\<rparr>)
                  | None \<Rightarrow> (Inr (), w\<lparr>clock := Suc (clock w)\<rparr>)) (\<lambda>_.
     then_do (builder_build_in env tmpdir rid br) (\<lambda>listing.
     ret (filter (\<lambda>s. endswith s ''.changes'') listing)))"

text \<open>The loop over the changes files; \<^verbatim>\<open>Series.process_changes\<close> forwards to the repository.\<close>

fun process_all :: "env \<Rightarrow> string \<Rightarrow> string list \<Rightarrow> unit action" where
  "process_all env series_name [] = ret ()"
| "process_all env series_name (changes_file # rest) =
     then_do (process_changes env series_name changes_file) (\<lambda>_.
       process_all env series_name rest)"

text \<open>The body of the \<^verbatim>\<open>try\<close> statement of \<^verbatim>\<open>build_real\<close>.\<close>

definition build_and_publish ::
  "env \<Rightarrow> string \<Rightarrow> string \<Rightarrow> string \<Rightarrow> nat \<Rightarrow> build_record_obj \<Rightarrow> unit action"
where
  "build_and_publish env series_name tmpdir builddir rid br =
     then_do (run_builder env tmpdir builddir rid br) (\<lambda>changes_files.
     then_do (process_all env series_name (map (path_join tmpdir) changes_files)) (\<lambda>_.
     export env))"

text \<open>
  Lines 282 to 289 of \<^verbatim>\<open>build_real\<close>: count the attempt, create the build record, get
  its logger, check out, record the commit.
\<close>

definition build_start ::
  "env \<Rightarrow> package_source \<Rightarrow> (string \<times> string \<times> nat \<times> build_record_obj) action"
where
  "build_start env self =
     (let self1 = self\<lparr>build_counter := build_counter self + 1\<rparr> in
      then_do (save_package_source env self1) (\<lambda>_.
      let br = \<lparr>br_source = ps_id self1, br_version = Some [],
                br_build_counter = build_counter self1, br_sha = None,
                br_logger = None, br_saved_logpath = None\<rparr> in
      then_do (insert_record env br) (\<lambda>rid.
      then_do (\<lambda>w. case logger env self1 br w of (lg, br1, w') \<Rightarrow> (Inr br1, w')) (\<lambda>br1.
      then_do (checkout env self1 None) (\<lambda>(tmpdir, builddir, sha).
      let br2 = br1\<lparr>br_sha := Some sha\<rparr> in
      then_do (save_record env rid br2) (\<lambda>_.
      ret (tmpdir, builddir, rid, br2)))))))"

definition build_real :: "env \<Rightarrow> string \<Rightarrow> package_source \<Rightarrow> unit action" where
  "build_real env series_name self =
     then_do (build_start env self) (\<lambda>(tmpdir, builddir, rid, br).
       try_finally (build_and_publish env series_name tmpdir builddir rid br) (rmtree tmpdir))"

section \<open>Specification predicates and example data\<close>


text \<open>An action leaves a component of the state as it was.\<close>

definition preserves :: "'a action \<Rightarrow> (world \<Rightarrow> 'b) \<Rightarrow> bool" where
  "preserves m g = (\<forall>w. g (snd (m w)) = g w)"

text \<open>A component of the state that no repository function writes.\<close>

definition repo_independent :: "(world \<Rightarrow> 'b) \<Rightarrow> bool" where
  "repo_independent g =
     (\<forall>w. (\<forall>n. g (w\<lparr>clock := n\<rparr>) = g w) \<and>
          (\<forall>b. g (w\<lparr>conf_rendered := b\<rparr>) = g w) \<and>
          (\<forall>k k'. g (w\<lparr>key_id := k, key_id_row := k'\<rparr>) = g w) \<and>
          (\<forall>k. g (w\<lparr>key_file := k\<rparr>) = g w) \<and>
          (\<forall>i. g (w\<lparr>index := i\<rparr>) = g w) \<and>
          (\<forall>m. g (w\<lparr>manifests := m\<rparr>) = g w) \<and>
          (\<forall>p. g (w\<lparr>pool := p\<rparr>) = g w))"

definition example_source :: package_source where
  "example_source =
     \<lparr>ps_id = 1, git_url = ''https://github.com/anand0707/myrepo'', branch = ''main'',
      last_seen_revision = None, last_built_version = None, last_built_name = None,
      build_counter = 0\<rparr>"

definition ls_remote_abc123 :: run_cmd where
  "ls_remote_abc123 cmd = Inr (''abc123'' @ [TAB] @ ''refs/heads/main'' @ [CHR 0x0A])"

definition ls_remote_nothing :: run_cmd where
  "ls_remote_nothing cmd = Inr []"

definition foo_changes :: manifest where
  "foo_changes =
     \<lparr>multivalued =
        [(''Checksums-Sha1'',
            [[(''sha1'', ''aa''), (''size'', ''10''), (''name'', ''foo.ddeb'')],
             [(''sha1'', ''bb''), (''size'', ''20''), (''name'', ''foo.deb'')]]),
         (''Checksums-Sha256'',
            [[(''sha256'', ''cc''), (''size'', ''10''), (''name'', ''foo.ddeb'')],
             [(''sha256'', ''dd''), (''size'', ''20''), (''name'', ''foo.deb'')]]),
         (''Files'',
            [[(''md5sum'', ''ee''), (''size'', ''10''), (''section'', ''debug''),
              (''priority'', ''extra''), (''name'', ''foo.ddeb'')],
             [(''md5sum'', ''ff''), (''size'', ''20''), (''section'', ''misc''),
              (''priority'', ''optional''), (''name'', ''foo.deb'')]])],
      plain_fields = [(''Source'', ''foo''), (''Version'', ''1.0'')]\<rparr>"

definition foo_stripped :: manifest where
  "foo_stripped =
     \<lparr>multivalued =
        [(''Checksums-Sha1'', [[(''sha1'', ''bb''), (''size'', ''20''), (''name'', ''foo.deb'')]]),
         (''Checksums-Sha256'', [[(''sha256'', ''dd''), (''size'', ''20''), (''name'', ''foo.deb'')]]),
         (''Files'',
            [[(''md5sum'', ''ff''), (''size'', ''20''), (''section'', ''misc''),
              (''priority'', ''optional''), (''name'', ''foo.deb'')]])],
      plain_fields = [(''Source'', ''foo''), (''Version'', ''1.0'')]\<rparr>"

text \<open>The same manifest for another source package, before and after the rewrite.\<close>

definition changes_of :: "string \<Rightarrow> manifest" where
  "changes_of n = foo_changes\<lparr>plain_fields := [(''Source'', n)]\<rparr>"

definition stripped_of :: "string \<Rightarrow> manifest" where
  "stripped_of n = foo_stripped\<lparr>plain_fields := [(''Source'', n)]\<rparr>"

text \<open>
  An environment in which every command succeeds and the builder leaves three changes
  files, and one in which the repository tool refuses to include \<^verbatim>\<open>b.changes\<close>.
\<close>

definition example_env :: env where
  "example_env =
     \<lparr>run_cmd_at = (\<lambda>n cmd. Inr (''output of '' @ join_with '' '' cmd)),
      recursive_render = (\<lambda>n. None),
      save_error = (\<lambda>n. None),
      mkdtemp_name = (\<lambda>n. ''/tmp/tmpA1''),
      urlparse_path = (\<lambda>url. ''/anand0707/myrepo''),
      repo_driver = FakeDriver,
      basedir = ''/srv/repos'',
      outdir = ''/srv/public'',
      choose_builder = (\<lambda>n d. None),
      builder_build =
        (\<lambda>n. \<lparr>bo_version = Some ''1.0'',
               bo_files = [(''a.changes'', changes_of ''a''), (''b.changes'', changes_of ''b''),
                           (''c.changes'', changes_of ''c'')],
               bo_error = None\<rparr>)\<rparr>"

definition include_b :: "string list" where
  "include_b =
     [''reprepro'', ''-b'', ''/srv/repos'', ''--ignore=wrongdistribution'', ''include'',
      ''trusty'', ''/tmp/tmpA1/b.changes'']"

definition failing_env :: env where
  "failing_env =
     example_env\<lparr>run_cmd_at :=
       (\<lambda>n cmd. if cmd = include_b then Inl (CommandFailed cmd)
                 else Inr (''output of '' @ join_with '' '' cmd))\<rparr>"

definition empty_world :: world where
  "empty_world =
     \<lparr>clock = 0, source_rows = Map.empty, record_rows = [], key_id = Some [],
      key_id_row = Some [], conf_rendered = False, outdir_exists = True, key_file = None,
      manifests = Map.empty,
      pool = [], index = [], tmpdirs = {}, log_dir = Map.empty, log_data = [],
      log_handlers = (\<lambda>name. [])\<rparr>"


text \<open>An environment in which \<^verbatim>\<open>git clone\<close> fails.\<close>

definition clone_fails_env :: env where
  "clone_fails_env =
     example_env\<lparr>run_cmd_at :=
       (\<lambda>n cmd. if take 2 cmd = [''git'', ''clone''] then Inl (CommandFailed cmd)
                 else Inr (''output of '' @ join_with '' '' cmd))\<rparr>"

text \<open>
  An environment whose database refuses the sixth call of a build attempt, the
  \<^verbatim>\<open>br.save()\<close> that follows the checkout, and a source whose counter is the largest
  value of its column.
\<close>

definition record_save_fails_env :: env where
  "record_save_fails_env =
     example_env\<lparr>save_error := (\<lambda>n. if n = 5 then Some DatabaseError else None)\<rparr>"

definition full_counter_source :: package_source where
  "full_counter_source = example_source\<lparr>build_counter := 2147483647\<rparr>"

text \<open>
  A build record as \<^verbatim>\<open>build_real\<close> creates it, and the log of a build that logs two
  lines, learns its version and logs a third line.
\<close>

definition fresh_record :: build_record_obj where
  "fresh_record =
     \<lparr>br_source = 1, br_version = Some [], br_build_counter = 1, br_sha = None,
      br_logger = None, br_saved_logpath = None\<rparr>"

definition log_scenario :: world where
  "log_scenario =
     (case logger example_env example_source fresh_record empty_world of
        (lg1, br1, w1) \<Rightarrow>
          (case logger example_env example_source (br1\<lparr>br_version := Some ''1.0''\<rparr>)
                  (log_lines (logger_name example_source fresh_record)
                     [''cloning'', ''building''] w1) of
             (lg2, br3, w3) \<Rightarrow>
               log_lines (logger_name example_source fresh_record) [''published''] w3))"

section \<open>Facts about the string functions\<close>

lemma split_on_not_Nil: "split_on c s \<noteq> []"
  by (induction s) (auto split: list.splits)

lemma index0_split_on: "index0 (split_on c s) = Inr (takeWhile (\<lambda>x. x \<noteq> c) s)"
  by (induction s) (auto simp: index0_def split: list.splits)

lemma split_on_no_sep: "x \<in> set (split_on c s) \<Longrightarrow> c \<notin> set x"
  by (induction s arbitrary: x) (auto split: list.splits if_splits)

lemma join_with_set: "set (join_with sep xs) \<subseteq> set sep \<union> \<Union> (set ` set xs)"
  by (induction sep xs rule: join_with.induct) auto

lemma long_name_no_slash: "CHR ''/'' \<notin> set (long_name p)"
proof
  assume "CHR ''/'' \<in> set (long_name p)"
  then have "CHR ''/'' \<in> set ''_'' \<union> \<Union> (set ` set (filter (\<lambda>s. s \<noteq> []) (split_on CHR ''/'' p)))"
    using join_with_set unfolding long_name_def by blast
  then obtain x where "x \<in> set (split_on CHR ''/'' p)" "CHR ''/'' \<in> set x"
    by auto
  then show False
    using split_on_no_sep by blast
qed

lemma path_join_plain:
  assumes "CHR ''/'' \<notin> set a" and "a \<noteq> []"
  shows "path_join a (a @ b) = a @ ''/'' @ a @ b"
proof -
  from assms obtain x xs where a: "a = x # xs" and x: "x \<noteq> CHR ''/''"
    by (cases a) auto
  have 1: "\<not> startswith (a @ b) ''/''"
    using a x by (simp add: startswith_def)
  have "last a \<noteq> CHR ''/''"
    using assms by (metis last_in_set)
  then have 2: "\<not> endswith a ''/''"
    using assms(2) by (auto simp: endswith_def dest!: arg_cong[where f=last])
  show ?thesis
    using 1 2 assms(2) by (simp add: path_join_def)
qed

section \<open>Facts about manifests, actions and the repository\<close>






lemma then_do_Inr:
  "then_do m f w = (Inr y, w') \<Longrightarrow> \<exists>x w1. m w = (Inr x, w1) \<and> f x w1 = (Inr y, w')"
  by (auto simp: then_do_def split: prod.splits sum.splits)

lemma preservesD: "preserves m g \<Longrightarrow> m w = (r, w') \<Longrightarrow> g w' = g w"
  by (metis preserves_def snd_conv)

lemma preserves_ret [simp]: "preserves (ret x) g"
  by (simp add: preserves_def ret_def)

lemma preserves_raise [simp]: "preserves (raise e) g"
  by (simp add: preserves_def raise_def)

lemma preserves_then_do:
  "preserves m g \<Longrightarrow> (\<And>x. preserves (f x) g) \<Longrightarrow> preserves (then_do m f) g"
  by (auto simp: preserves_def then_do_def split: prod.splits sum.splits)
    (metis snd_conv)+

lemma preserves_modify: "(\<And>w. g (f w) = g w) \<Longrightarrow> preserves (modify f) g"
  by (simp add: preserves_def modify_def)

lemma preserves_run_cmd: "(\<And>w n. g (w\<lparr>clock := n\<rparr>) = g w) \<Longrightarrow> preserves (run_cmd env cmd) g"
  by (simp add: preserves_def run_cmd_def)

lemma preserves_generate_key:
  "(\<And>w n. g (w\<lparr>clock := n\<rparr>) = g w) \<Longrightarrow> preserves (generate_key env) g"
  unfolding generate_key_def
  by (auto intro!: preserves_then_do preserves_run_cmd split: driver.splits sum.splits)

lemma preserves_eds:
  "(\<And>w n. g (w\<lparr>clock := n\<rparr>) = g w) \<Longrightarrow> (\<And>w b. g (w\<lparr>conf_rendered := b\<rparr>) = g w) \<Longrightarrow>
   preserves (ensure_directory_structure env) g"
  by (auto simp: preserves_def ensure_directory_structure_def split: option.splits)

lemma preserves_db_save:
  "(\<And>w n. g (w\<lparr>clock := n\<rparr>) = g w) \<Longrightarrow> (\<And>w. g (store w) = g w) \<Longrightarrow>
   preserves (db_save env violation store) g"
  by (auto simp: preserves_def db_save_def split: option.splits)

lemma preserves_ensure_key:
  assumes "\<And>w n. g (w\<lparr>clock := n\<rparr>) = g w"
    and "\<And>w k k'. g (w\<lparr>key_id := k, key_id_row := k'\<rparr>) = g w"
  shows "preserves (ensure_key env) g"
proof -
  have k1: "g (w\<lparr>key_id := k\<rparr>) = g w" for w k
    using assms(2) [where w = w and k = k and k' = "key_id_row w"] by simp
  have k2: "g (w\<lparr>key_id_row := k\<rparr>) = g w" for w k
    using assms(2) [where w = w and k = "key_id w" and k' = k] by simp
  have save: "preserves (save_repository env) g"
    unfolding preserves_def save_repository_def
    by (auto simp: db_save_def assms(1) k2 split: option.splits)
  have "preserves (then_do (generate_key env) (\<lambda>k.
           then_do (modify (\<lambda>w. w\<lparr>key_id := k\<rparr>)) (\<lambda>_. save_repository env))) g"
    by (intro preserves_then_do preserves_generate_key preserves_modify save assms(1) k1)
  then show ?thesis
    by (auto simp: preserves_def ensure_key_def ret_def)
qed

lemma preserves_export_key:
  "(\<And>w n. g (w\<lparr>clock := n\<rparr>) = g w) \<Longrightarrow>
   (\<And>w k. g (w\<lparr>key_file := k\<rparr>) = g w) \<Longrightarrow>
   preserves (export_key env) g"
  by (auto simp: preserves_def export_key_def ret_def modify_def raise_def then_do_def run_cmd_def
      split: option.splits sum.splits)

lemma preserves_reprepro:
  "(\<And>w n. g (w\<lparr>clock := n\<rparr>) = g w) \<Longrightarrow> preserves (reprepro env args) g"
  unfolding reprepro_def by (rule preserves_run_cmd)

lemma preserves_export:
  assumes "\<And>w n. g (w\<lparr>clock := n\<rparr>) = g w"
    and "\<And>w k k'. g (w\<lparr>key_id := k, key_id_row := k'\<rparr>) = g w"
    and "\<And>w b. g (w\<lparr>conf_rendered := b\<rparr>) = g w"
    and "\<And>w k. g (w\<lparr>key_file := k\<rparr>) = g w"
    and "\<And>w i. g (w\<lparr>index := i\<rparr>) = g w"
  shows "preserves (export env) g"
  unfolding export_def
  by (intro preserves_then_do preserves_ensure_key preserves_eds preserves_export_key
      preserves_reprepro preserves_modify assms)

lemma export_pool: "export env w = (r, w') \<Longrightarrow> pool w' = pool w"
  using preservesD [OF preserves_export [of pool env, simplified]] .

lemma export_manifests: "export env w = (r, w') \<Longrightarrow> manifests w' = manifests w"
  using preservesD [OF preserves_export [of manifests env, simplified]] .

lemma export_Inr_index: "export env w = (Inr u, w') \<Longrightarrow> index w' = pool w'"
  unfolding export_def
  by (auto dest!: then_do_Inr simp: modify_def)

lemma export_index: "export env w = (r, w') \<Longrightarrow> index w' = index w \<or> index w' = pool w"
proof (cases r)
  case (Inr u)
  then show "export env w = (r, w') \<Longrightarrow> ?thesis"
    using export_Inr_index export_pool by metis
next
  case (Inl e)
  assume "export env w = (r, w')"
  then show ?thesis
    using Inl unfolding export_def then_do_def
    by (auto simp: modify_def split: prod.splits sum.splits
        dest!: preservesD [OF preserves_ensure_key [of index env, simplified]]
          preservesD [OF preserves_eds [of index env, simplified]]
          preservesD [OF preserves_export_key [of index env, simplified]]
          preservesD [OF preserves_reprepro [of index env, simplified]])
qed

lemma eds_frame:
  "ensure_directory_structure env w = (r, w') \<Longrightarrow>
     manifests w' = manifests w \<and> pool w' = pool w \<and> index w' = index w"
  by (auto simp: ensure_directory_structure_def split: option.splits)

lemma remove_ddebs_Inr:
  "remove_ddebs_from_changes f w = (Inr u, w') \<Longrightarrow>
     \<exists>m m'. manifests w f = Some m \<and> strip_sections ddeb_sections m = Inr m' \<and>
       w' = w\<lparr>manifests := (manifests w)(f \<mapsto> m')\<rparr>"
  by (auto simp: remove_ddebs_from_changes_def split: option.splits sum.splits)

lemma include_changes_Inr:
  "include_changes env s f w = (Inr u, w') \<Longrightarrow> manifests w f = Some m \<Longrightarrow>
     manifests w' = manifests w \<and> pool w' = pool w @ [(s, m)] \<and> index w' = index w"
  by (auto simp: include_changes_def reprepro_def run_cmd_def then_do_def split: sum.splits)

lemma then_do_cases:
  assumes "then_do m f w = (r, w')"
  obtains (fails) e where "m w = (Inl e, w')" and "r = Inl e"
    | (goes_on) x w1 where "m w = (Inr x, w1)" and "f x w1 = (r, w')"
  using assms by (auto simp: then_do_def split: prod.splits sum.splits)

lemma remove_ddebs_Inl:
  "remove_ddebs_from_changes f w = (Inl e, w') \<Longrightarrow> w' = w"
  by (auto simp: remove_ddebs_from_changes_def split: option.splits sum.splits)

lemma include_changes_Inl:
  "include_changes env s f w = (Inl e, w') \<Longrightarrow>
     manifests w' = manifests w \<and> pool w' = pool w \<and> index w' = index w"
  by (auto simp: include_changes_def reprepro_def run_cmd_def then_do_def
      split: sum.splits option.splits)

lemma process_changes_cases:
  assumes "process_changes env series_name changes_file w = (r, w')"
  shows "(r \<noteq> Inr () \<and> pool w' = pool w \<and> index w' = index w) \<or>
         (\<exists>m m'. manifests w changes_file = Some m \<and>
            strip_sections ddeb_sections m = Inr m' \<and>
            manifests w' = (manifests w)(changes_file \<mapsto> m') \<and>
            pool w' = pool w @ [(series_name, m')] \<and>
            (if r = Inr () then index w' = pool w' else index w' = index w \<or> index w' = pool w'))"
  using assms unfolding process_changes_def
proof (cases rule: then_do_cases)
  case (fails e)
  then show ?thesis
    using eds_frame by blast
next
  case (goes_on x w1)
  note 1 = goes_on(1)
  have w1: "manifests w1 = manifests w" "pool w1 = pool w" "index w1 = index w"
    using eds_frame [OF 1] by simp_all
  from goes_on(2) show ?thesis
  proof (cases rule: then_do_cases)
    case (fails e)
    then show ?thesis
      using remove_ddebs_Inl w1 by blast
  next
    case (goes_on y w2)
    from goes_on(1) obtain m m' where m: "manifests w1 changes_file = Some m"
      and m': "strip_sections ddeb_sections m = Inr m'"
      and w2: "w2 = w1\<lparr>manifests := (manifests w1)(changes_file \<mapsto> m')\<rparr>"
      by (auto dest!: remove_ddebs_Inr)
    have mw2: "manifests w2 changes_file = Some m'"
      using w2 by simp
    from goes_on(2) show ?thesis
    proof (cases rule: then_do_cases)
      case (fails e)
      then show ?thesis
        using include_changes_Inl [of env series_name changes_file w2 e w'] w2 w1 by simp
    next
      case (goes_on z w3)
      from include_changes_Inr [OF goes_on(1) mw2]
      have w3: "manifests w3 = manifests w2" "pool w3 = pool w2 @ [(series_name, m')]"
        "index w3 = index w2"
        by simp_all
      have "manifests w' = (manifests w)(changes_file \<mapsto> m')"
        using export_manifests [OF goes_on(2)] w3 w2 w1 by simp
      moreover have "pool w' = pool w @ [(series_name, m')]"
        using export_pool [OF goes_on(2)] w3 w2 w1 by simp
      moreover have "r = Inr () \<Longrightarrow> index w' = pool w'"
        using export_Inr_index goes_on(2) by blast
      moreover have "index w' = index w \<or> index w' = pool w'"
        using export_index [OF goes_on(2)] export_pool [OF goes_on(2)] w3 w2 w1 by auto
      ultimately show ?thesis
        using m m' w1 by auto
    qed
  qed
qed






lemma poll_success:
  assumes "run (poll_cmd self) = Inr stdout"
  shows "poll run (self, db) =
     (if Some (takeWhile (\<lambda>c. c \<noteq> TAB) stdout) = last_seen_revision self
      then (Inr False, self, db)
      else (Inr True, self\<lparr>last_seen_revision := Some (takeWhile (\<lambda>c. c \<noteq> TAB) stdout)\<rparr>,
            save_source (self\<lparr>last_seen_revision := Some (takeWhile (\<lambda>c. c \<noteq> TAB) stdout)\<rparr>) db))"
  using assms by (simp add: poll_def index0_split_on Let_def)

lemma poll_cmd_lsr [simp]: "poll_cmd (self\<lparr>last_seen_revision := r\<rparr>) = poll_cmd self"
  by (simp add: poll_cmd_def)


section \<open>Facts about checkout and build_real\<close>

lemma repo_independent_source_rows: "repo_independent source_rows"
  by (simp add: repo_independent_def)

lemma repo_independent_tmpdirs: "repo_independent tmpdirs"
  by (simp add: repo_independent_def)

lemma preserves_export_ri: "repo_independent g \<Longrightarrow> preserves (export env) g"
  by (rule preserves_export) (simp_all add: repo_independent_def)

lemma preserves_remove_ddebs:
  "repo_independent g \<Longrightarrow> preserves (remove_ddebs_from_changes f) g"
  by (auto simp: preserves_def remove_ddebs_from_changes_def repo_independent_def
      split: option.splits sum.splits)

lemma preserves_include_changes:
  "repo_independent g \<Longrightarrow> preserves (include_changes env s f) g"
  unfolding include_changes_def
  by (rule preserves_then_do, rule preserves_reprepro)
    (auto simp: preserves_def repo_independent_def split: option.splits)

lemma preserves_process_changes:
  "repo_independent g \<Longrightarrow> preserves (process_changes env s f) g"
  unfolding process_changes_def
  by (intro preserves_then_do preserves_eds preserves_remove_ddebs preserves_include_changes
      preserves_export_ri) (simp_all add: repo_independent_def)

lemma preserves_process_all:
  "repo_independent g \<Longrightarrow> preserves (process_all env s fs) g"
  by (induction fs) (auto intro!: preserves_then_do preserves_process_changes)

lemma repo_independent_record_rows: "repo_independent record_rows"
  by (simp add: repo_independent_def)

lemma repo_independent_outdir_exists: "repo_independent outdir_exists"
  by (simp add: repo_independent_def)

lemma preserves_builder_build_in:
  assumes "repo_independent g" and "\<And>w r. g (w\<lparr>record_rows := r\<rparr>) = g w"
  shows "preserves (builder_build_in env tmpdir rid br) g"
proof -
  have "g (w\<lparr>clock := n, manifests := m\<rparr>) = g w" for w n m
    using assms(1) unfolding repo_independent_def by metis
  then have "g (w\<lparr>clock := n, manifests := m, record_rows := r\<rparr>) = g w" for w n m r
    using assms(2) [where w = "w\<lparr>clock := n, manifests := m\<rparr>" and r = r] by simp
  then show ?thesis
    by (auto simp: preserves_def builder_build_in_def Let_def split: option.splits)
qed

lemma preserves_run_builder:
  assumes "repo_independent g" and "\<And>w r. g (w\<lparr>record_rows := r\<rparr>) = g w"
  shows "preserves (run_builder env tmpdir builddir rid br) g"
  unfolding run_builder_def
  by (intro preserves_then_do preserves_builder_build_in preserves_ret assms)
    (use assms(1) in \<open>auto simp: preserves_def repo_independent_def split: option.splits\<close>)

lemma preserves_build_and_publish:
  assumes "repo_independent g" and "\<And>w r. g (w\<lparr>record_rows := r\<rparr>) = g w"
  shows "preserves (build_and_publish env s tmpdir builddir rid br) g"
  unfolding build_and_publish_def
  by (intro preserves_then_do preserves_run_builder preserves_process_all preserves_export_ri
      assms)

lemma logger_frame:
  "logger env src br w = (lg, br', w') \<Longrightarrow>
     source_rows w' = source_rows w \<and> tmpdirs w' = tmpdirs w \<and> record_rows w' = record_rows w \<and>
     pool w' = pool w \<and> index w' = index w \<and> manifests w' = manifests w \<and> outdir_exists w'"
  by (auto simp: logger_def Let_def file_handler_def rename_def
      split: if_splits option.splits prod.splits)

lemma try_except_reraise_cases:
  assumes "try_except_reraise m c w = (r, w')"
  obtains (raised) e w1 where "m w = (Inl e, w1)" and "r = Inl e" and "w' = c w1"
    | (returned) x where "m w = (Inr x, w')" and "r = Inr x"
  using assms by (auto simp: try_except_reraise_def split: prod.splits sum.splits)

lemma checkout_body_preserves:
  "(\<And>w n. g (w\<lparr>clock := n\<rparr>) = g w) \<Longrightarrow> preserves (checkout_body env self sha d) g"
  unfolding checkout_body_def
  by (auto intro!: preserves_then_do preserves_run_cmd)

lemma checkout_body_result:
  "checkout_body env self sha d w = (Inr x, w') \<Longrightarrow> fst x = d"
  unfolding checkout_body_def
  by (auto dest!: then_do_Inr simp: ret_def)

lemma mkdtemp_effect:
  "mkdtemp env w = (r, w') \<Longrightarrow>
     source_rows w' = source_rows w \<and> record_rows w' = record_rows w \<and>
     (case r of Inl e \<Rightarrow> tmpdirs w' = tmpdirs w
      | Inr d \<Rightarrow> d \<notin> tmpdirs w \<and> tmpdirs w' = insert d (tmpdirs w))"
  by (auto simp: mkdtemp_def Let_def split: if_splits)

lemma checkout_effect:
  assumes "checkout env self sha w = (r, w')"
  shows "source_rows w' = source_rows w \<and> record_rows w' = record_rows w \<and>
         (case r of
            Inl e \<Rightarrow> tmpdirs w' = tmpdirs w
          | Inr x \<Rightarrow> fst x \<notin> tmpdirs w \<and> tmpdirs w' = insert (fst x) (tmpdirs w))"
  using assms unfolding checkout_def
proof (cases rule: then_do_cases)
  case (fails e)
  then show ?thesis
    using mkdtemp_effect [of env w "Inl e" w'] by simp
next
  case (goes_on d w1)
  have mk: "source_rows w1 = source_rows w" "record_rows w1 = record_rows w"
    "d \<notin> tmpdirs w" "tmpdirs w1 = insert d (tmpdirs w)"
    using mkdtemp_effect [OF goes_on(1)] by simp_all
  from goes_on(2) show ?thesis
  proof (cases rule: try_except_reraise_cases)
    case (raised e w2)
    have "source_rows w2 = source_rows w1" "record_rows w2 = record_rows w1"
      "tmpdirs w2 = tmpdirs w1"
      using preservesD [OF checkout_body_preserves raised(1), of source_rows]
        preservesD [OF checkout_body_preserves raised(1), of record_rows]
        preservesD [OF checkout_body_preserves raised(1), of tmpdirs]
      by simp_all
    then show ?thesis
      using raised(2,3) mk by (simp add: rmtree_def)
  next
    case (returned x)
    have "source_rows w' = source_rows w1" "record_rows w' = record_rows w1"
      "tmpdirs w' = tmpdirs w1"
      using preservesD [OF checkout_body_preserves returned(1), of source_rows]
        preservesD [OF checkout_body_preserves returned(1), of record_rows]
        preservesD [OF checkout_body_preserves returned(1), of tmpdirs]
      by simp_all
    then show ?thesis
      using returned(2) mk checkout_body_result [OF returned(1)] by simp
  qed
qed

lemma mkdtemp_pool:
  "mkdtemp env w = (r, w') \<Longrightarrow>
     pool w' = pool w \<and> index w' = index w \<and> outdir_exists w' = outdir_exists w"
  by (auto simp: mkdtemp_def Let_def split: if_splits)

lemma checkout_pool:
  assumes "checkout env self sha w = (r, w')"
  shows "pool w' = pool w \<and> index w' = index w \<and> outdir_exists w' = outdir_exists w"
  using assms unfolding checkout_def
proof (cases rule: then_do_cases)
  case (fails e)
  then show ?thesis
    using mkdtemp_pool by blast
next
  case (goes_on d w1)
  have mk: "pool w1 = pool w" "index w1 = index w" "outdir_exists w1 = outdir_exists w"
    using mkdtemp_pool [OF goes_on(1)] by simp_all
  from goes_on(2) show ?thesis
  proof (cases rule: try_except_reraise_cases)
    case (raised e w2)
    have "pool w2 = pool w1" "index w2 = index w1" "outdir_exists w2 = outdir_exists w1"
      using preservesD [OF checkout_body_preserves raised(1), of pool]
        preservesD [OF checkout_body_preserves raised(1), of index]
        preservesD [OF checkout_body_preserves raised(1), of outdir_exists]
      by simp_all
    then show ?thesis
      using raised(3) mk by (simp add: rmtree_def)
  next
    case (returned x)
    have "pool w' = pool w1" "index w' = index w1" "outdir_exists w' = outdir_exists w1"
      using preservesD [OF checkout_body_preserves returned(1), of pool]
        preservesD [OF checkout_body_preserves returned(1), of index]
        preservesD [OF checkout_body_preserves returned(1), of outdir_exists]
      by simp_all
    then show ?thesis
      using mk by simp
  qed
qed

lemma db_save_frame:
  assumes "db_save env violation store w = (r, w')"
    and "\<And>v. source_rows (store v) = source_rows v \<and> tmpdirs (store v) = tmpdirs v \<and>
           pool (store v) = pool v \<and> index (store v) = index v \<and>
           outdir_exists (store v) = outdir_exists v"
  shows "source_rows w' = source_rows w \<and> tmpdirs w' = tmpdirs w \<and> pool w' = pool w \<and>
         index w' = index w \<and> outdir_exists w' = outdir_exists w"
  using assms by (auto simp: db_save_def split: option.splits)

lemma insert_record_frame:
  "insert_record env br w = (r, w') \<Longrightarrow>
     source_rows w' = source_rows w \<and> tmpdirs w' = tmpdirs w \<and> pool w' = pool w \<and>
     index w' = index w \<and> outdir_exists w' = outdir_exists w"
  by (auto simp: insert_record_def db_save_def split: option.splits)

lemma save_record_frame:
  "save_record env rid br w = (r, w') \<Longrightarrow>
     source_rows w' = source_rows w \<and> tmpdirs w' = tmpdirs w \<and> pool w' = pool w \<and>
     index w' = index w \<and> outdir_exists w' = outdir_exists w"
  by (auto simp: save_record_def db_save_def split: option.splits)

lemma save_package_source_effect:
  assumes "save_package_source env s w = (r, w')"
  shows "tmpdirs w' = tmpdirs w \<and> pool w' = pool w \<and> index w' = index w \<and>
         record_rows w' = record_rows w \<and>
         (if save_error env (clock w) = None \<and> in_integer_range (build_counter s)
          then r = Inr () \<and> source_rows w' = (source_rows w)(ps_id s \<mapsto> s)
          else (\<exists>e. r = Inl e) \<and> source_rows w' = source_rows w)"
  using assms
  by (auto simp: save_package_source_def db_save_def save_source_def split: option.splits if_splits)

text \<open>The statements of \<^verbatim>\<open>build_real\<close> between the first save and the \<^verbatim>\<open>try\<close>.\<close>

lemma after_counter_effect:
  assumes "then_do (insert_record env br) (\<lambda>rid.
      then_do (\<lambda>w. case logger env self1 br w of (lg, br1, w') \<Rightarrow> (Inr br1, w')) (\<lambda>br1.
      then_do (checkout env self1 None) (\<lambda>(tmpdir, builddir, sha).
      then_do (save_record env rid (br1\<lparr>br_sha := Some sha\<rparr>)) (\<lambda>_.
      ret (tmpdir, builddir, rid, br1\<lparr>br_sha := Some sha\<rparr>))))) w = (r, w')"
  shows "source_rows w' = source_rows w \<and> pool w' = pool w \<and> index w' = index w \<and>
         (case r of
            Inr x \<Rightarrow> fst x \<notin> tmpdirs w \<and> tmpdirs w' = insert (fst x) (tmpdirs w) \<and> outdir_exists w'
          | Inl e \<Rightarrow> tmpdirs w' = tmpdirs w \<or>
                     (\<exists>d. d \<notin> tmpdirs w \<and> tmpdirs w' = insert d (tmpdirs w)))"
  using assms
proof (cases rule: then_do_cases)
  case (fails e)
  then show ?thesis
    using insert_record_frame [OF fails(1)] by simp
next
  case (goes_on rid w1)
  note f1 = insert_record_frame [OF goes_on(1)]
  from goes_on(2) show ?thesis
  proof (cases rule: then_do_cases)
    case (fails e)
    then show ?thesis
      by (auto split: prod.splits)
  next
    case (goes_on br1 w2)
    obtain lg where lgr: "logger env self1 br w1 = (lg, br1, w2)"
      using goes_on(1) by (auto split: prod.splits)
    note f2 = logger_frame [OF lgr]
    from goes_on(2) show ?thesis
    proof (cases rule: then_do_cases)
      case (fails e)
      then show ?thesis
        using checkout_effect [OF fails(1)] checkout_pool [OF fails(1)] f1 f2 by simp
    next
      case (goes_on x w3)
      obtain tmpdir builddir sha where x: "x = (tmpdir, builddir, sha)"
        by (cases x)
      note f3 = checkout_effect [OF goes_on(1)] checkout_pool [OF goes_on(1)]
      have ox: "outdir_exists w3"
        using f3 f2 by simp
      from goes_on(2) [unfolded x, simplified] show ?thesis
      proof (cases rule: then_do_cases)
        case (fails e)
        then show ?thesis
          using save_record_frame [OF fails(1)] f1 f2 f3 x by auto
      next
        case (goes_on u w4)
        then show ?thesis
          using save_record_frame [OF goes_on(1)] f1 f2 f3 x ox by (auto simp: ret_def)
      qed
    qed
  qed
qed

lemma include_changes_manifests:
  "include_changes env s f w = (r, w') \<Longrightarrow> manifests w' = manifests w"
  by (auto simp: include_changes_def reprepro_def run_cmd_def then_do_def
      split: sum.splits option.splits)

lemma remove_ddebs_other:
  "remove_ddebs_from_changes f w = (r, w') \<Longrightarrow> p \<noteq> f \<Longrightarrow> manifests w' p = manifests w p"
  by (auto simp: remove_ddebs_from_changes_def split: option.splits sum.splits)

lemma process_changes_other_manifests:
  assumes "process_changes env s f w = (r, w')" and "p \<noteq> f"
  shows "manifests w' p = manifests w p"
  using assms(1) unfolding process_changes_def
proof (cases rule: then_do_cases)
  case (fails e)
  then show ?thesis
    using eds_frame by metis
next
  case (goes_on x w1)
  have w1: "manifests w1 = manifests w"
    using eds_frame [OF goes_on(1)] by simp
  from goes_on(2) show ?thesis
  proof (cases rule: then_do_cases)
    case (fails e)
    then show ?thesis
      using remove_ddebs_other [OF fails(1) assms(2)] w1 by simp
  next
    case (goes_on y w2)
    have w2: "manifests w2 p = manifests w p"
      using remove_ddebs_other [OF goes_on(1) assms(2)] w1 by simp
    from goes_on(2) show ?thesis
    proof (cases rule: then_do_cases)
      case (fails e)
      then show ?thesis
        using include_changes_manifests [OF fails(1)] w2 by simp
    next
      case (goes_on z w3)
      then show ?thesis
        using include_changes_manifests [OF goes_on(1)] export_manifests [OF goes_on(2)] w2
        by simp
    qed
  qed
qed

lemma process_changes_keeps:
  assumes "process_changes env s f w = (r, w')"
    and "item \<in> set (pool w)" and "item \<in> set (index w)"
  shows "item \<in> set (pool w') \<and> item \<in> set (index w')"
  using process_changes_cases [OF assms(1)] assms(2,3)
  by (auto split: if_splits)

lemma process_all_keeps:
  "process_all env s fs w = (r, w') \<Longrightarrow> item \<in> set (pool w) \<Longrightarrow> item \<in> set (index w) \<Longrightarrow>
     item \<in> set (pool w') \<and> item \<in> set (index w')"
proof (induction fs arbitrary: w)
  case Nil
  then show ?case by (simp add: ret_def)
next
  case (Cons f fs)
  from Cons.prems(1) [simplified] show ?case
  proof (cases rule: then_do_cases)
    case (fails e)
    then show ?thesis
      using process_changes_keeps Cons.prems(2,3) by blast
  next
    case (goes_on x w1)
    then show ?thesis
      using process_changes_keeps [OF goes_on(1) Cons.prems(2,3)] Cons.IH by blast
  qed
qed

lemma process_all_append:
  "process_all env s pre w = (Inr (), w1) \<Longrightarrow>
     process_all env s (pre @ rest) w = process_all env s rest w1"
proof (induction pre arbitrary: w)
  case Nil
  then show ?case by (simp add: ret_def)
next
  case (Cons f pre)
  from Cons.prems obtain wa where a: "process_changes env s f w = (Inr (), wa)"
    and b: "process_all env s pre wa = (Inr (), w1)"
    by (auto dest!: then_do_Inr)
  show ?case
    using Cons.IH [OF b] a by (simp add: then_do_def)
qed

lemma process_all_published:
  "process_all env s pre w = (Inr (), w1) \<Longrightarrow>
     \<forall>g\<in>set pre. \<exists>m0 m. manifests w g = Some m0 \<and> strip_sections ddeb_sections m0 = Inr m \<and>
        (s, m) \<in> set (pool w1) \<and> (s, m) \<in> set (index w1)"
proof (induction pre arbitrary: w)
  case Nil
  then show ?case by simp
next
  case (Cons f pre)
  from Cons.prems obtain wa where a: "process_changes env s f w = (Inr (), wa)"
    and b: "process_all env s pre wa = (Inr (), w1)"
    by (auto dest!: then_do_Inr)
  from process_changes_cases [OF a] obtain m0 m where m0: "manifests w f = Some m0"
    and m: "strip_sections ddeb_sections m0 = Inr m"
    and pa: "pool wa = pool w @ [(s, m)]" and ia: "index wa = pool wa"
    by auto
  have f: "(s, m) \<in> set (pool w1) \<and> (s, m) \<in> set (index w1)"
    using process_all_keeps [OF b, of "(s, m)"] pa ia by simp
  show ?case
  proof
    fix g assume g: "g \<in> set (f # pre)"
    show "\<exists>m0 m. manifests w g = Some m0 \<and> strip_sections ddeb_sections m0 = Inr m \<and>
        (s, m) \<in> set (pool w1) \<and> (s, m) \<in> set (index w1)"
    proof (cases "g = f")
      case True
      then show ?thesis
        using m0 m f by blast
    next
      case False
      then have "g \<in> set pre"
        using g by simp
      then obtain n0 n where "manifests wa g = Some n0" "strip_sections ddeb_sections n0 = Inr n"
        "(s, n) \<in> set (pool w1)" "(s, n) \<in> set (index w1)"
        using Cons.IH [OF b] by blast
      moreover have "manifests wa g = manifests w g"
        using process_changes_other_manifests [OF a False] .
      ultimately show ?thesis
        by auto
    qed
  qed
qed

lemma strip_changes_of: "strip_sections ddeb_sections (changes_of n) = Inr (stripped_of n)"
  by (simp add: ddeb_sections_def changes_of_def stripped_of_def foo_changes_def
      foo_stripped_def endswith_def lower_def lower_char_def)

lemma failing_env_other:
  assumes "manifests w f = Some (changes_of n)" and "f \<noteq> ''/tmp/tmpA1/b.changes''"
    and "outdir_exists w"
  shows "fst (process_changes failing_env ''trusty'' f w) = Inr ()"
  using assms
  by (auto simp: process_changes_def then_do_def ensure_directory_structure_def
      remove_ddebs_from_changes_def strip_changes_of include_changes_def reprepro_def
      run_cmd_def export_def ensure_key_def generate_key_def ret_def modify_def raise_def
      export_key_def truthy_def failing_env_def example_env_def include_b_def
      save_repository_def db_save_def
      split: option.splits)

lemma example_env_process:
  assumes "manifests w f = Some (changes_of n)" and "outdir_exists w"
  shows "fst (process_changes example_env ''trusty'' f w) = Inr ()"
  using assms
  by (auto simp: process_changes_def then_do_def ensure_directory_structure_def
      remove_ddebs_from_changes_def strip_changes_of include_changes_def reprepro_def
      run_cmd_def export_def ensure_key_def generate_key_def ret_def modify_def raise_def
      export_key_def truthy_def example_env_def
      save_repository_def db_save_def
      split: option.splits)

lemma example_env_export:
  assumes "outdir_exists w"
  shows "fst (export example_env w) = Inr ()"
  using assms
  by (auto simp: then_do_def ensure_directory_structure_def reprepro_def
      run_cmd_def export_def ensure_key_def generate_key_def ret_def modify_def raise_def
      export_key_def truthy_def example_env_def
      save_repository_def db_save_def
      split: option.splits)

lemma failing_env_b:
  assumes "manifests w ''/tmp/tmpA1/b.changes'' = Some (changes_of n)"
  shows "fst (process_changes failing_env ''trusty'' ''/tmp/tmpA1/b.changes'' w)
           = Inl (CommandFailed include_b) \<and>
         pool (snd (process_changes failing_env ''trusty'' ''/tmp/tmpA1/b.changes'' w)) = pool w \<and>
         index (snd (process_changes failing_env ''trusty'' ''/tmp/tmpA1/b.changes'' w)) = index w"
  using assms
  by (auto simp: process_changes_def then_do_def ensure_directory_structure_def
      remove_ddebs_from_changes_def strip_changes_of include_changes_def reprepro_def
      run_cmd_def failing_env_def example_env_def include_b_def
      split: option.splits)

lemma run_builder_examples:
  assumes "env = example_env \<or> env = failing_env"
  shows "fst (run_builder env ''/tmp/tmpA1'' bd rid br w)
     = Inr [''a.changes'', ''b.changes'', ''c.changes''] \<and>
   manifests (snd (run_builder env ''/tmp/tmpA1'' bd rid br w)) ''/tmp/tmpA1/a.changes''
     = Some (changes_of ''a'') \<and>
   manifests (snd (run_builder env ''/tmp/tmpA1'' bd rid br w)) ''/tmp/tmpA1/b.changes''
     = Some (changes_of ''b'') \<and>
   manifests (snd (run_builder env ''/tmp/tmpA1'' bd rid br w)) ''/tmp/tmpA1/c.changes''
     = Some (changes_of ''c'') \<and>
   record_rows (snd (run_builder env ''/tmp/tmpA1'' bd rid br w))
     = (record_rows w)[rid := (build_record.truncate br)\<lparr>br_version := Some ''1.0''\<rparr>] \<and>
   outdir_exists (snd (run_builder env ''/tmp/tmpA1'' bd rid br w)) = outdir_exists w"
  using assms
  by (auto simp: run_builder_def then_do_def builder_build_in_def ret_def Let_def
      failing_env_def example_env_def endswith_def path_join_def startswith_def)

lemma run_builder_pool:
  "run_builder env tmpdir builddir rid br w = (r, w') \<Longrightarrow>
     pool w' = pool w \<and> index w' = index w \<and> outdir_exists w' = outdir_exists w"
  by (auto simp: run_builder_def then_do_def builder_build_in_def ret_def Let_def
      split: option.splits)

lemma remove_handlers_short: "length hs \<le> 1 \<Longrightarrow> remove_handlers 0 hs = []"
  by (cases hs) (simp_all add: remove_handlers.simps)

lemma path_join_nonempty: "b \<noteq> [] \<Longrightarrow> path_join a b \<noteq> []"
  by (simp add: path_join_def)

lemma buildlog_nonempty: "buildlog env src br \<noteq> []"
  by (simp add: buildlog_def logpath_def path_join_nonempty)

lemma log_lines_single:
  "log_handlers w name = [ino] \<Longrightarrow> ino < length (log_data w) \<Longrightarrow>
     log_lines name ls w = w\<lparr>log_data := (log_data w)[ino := log_data w ! ino @ ls]\<rparr>"
proof (induction ls arbitrary: w)
  case Nil
  then show ?case by simp
next
  case (Cons l ls)
  let ?w = "log_line name l w"
  have 1: "?w = w\<lparr>log_data := (log_data w)[ino := log_data w ! ino @ [l]]\<rparr>"
    using Cons.prems by (simp add: log_line_def)
  have "log_lines name ls ?w = ?w\<lparr>log_data := (log_data ?w)[ino := log_data ?w ! ino @ ls]\<rparr>"
    using Cons.prems by (intro Cons.IH) (simp_all add: 1)
  then show ?case
    using Cons.prems by (simp add: 1)
qed

lemma logger_first:
  assumes "br_saved_logpath br = None" and "length (log_handlers w (logger_name src br)) \<le> 1"
  shows "logger env src br w =
     (Some (logger_name src br),
      br\<lparr>br_logger := Some (logger_name src br),
         br_saved_logpath := Some (buildlog env src br)\<rparr>,
      (case log_dir w (buildlog env src br) of
         Some ino \<Rightarrow>
           w\<lparr>outdir_exists := True,
             log_handlers := (log_handlers w)(logger_name src br := [ino])\<rparr>
       | None \<Rightarrow>
           w\<lparr>outdir_exists := True,
             log_dir := (log_dir w)(buildlog env src br \<mapsto> length (log_data w)),
             log_data := log_data w @ [[]],
             log_handlers := (log_handlers w)(logger_name src br := [length (log_data w)])\<rparr>))"
  using assms
  by (simp add: logger_def Let_def file_handler_def remove_handlers_short split: option.splits)

lemma logger_moved:
  assumes "br_saved_logpath br = Some old" and "old \<noteq> buildlog env src br"
    and "old \<noteq> []" and "log_dir w old = Some ino"
    and "log_handlers w (logger_name src br) = [ino]"
  shows "logger env src br w =
     (Some (logger_name src br),
      br\<lparr>br_logger := Some (logger_name src br),
         br_saved_logpath := Some (buildlog env src br)\<rparr>,
      w\<lparr>outdir_exists := True,
        log_dir := ((log_dir w)(old := None))(buildlog env src br \<mapsto> ino),
        log_handlers := (log_handlers w)(logger_name src br := [ino])\<rparr>)"
  using assms
  by (simp add: logger_def Let_def file_handler_def rename_def remove_handlers_short)

lemma logger_same:
  assumes "br_saved_logpath br = Some (buildlog env src br)"
  shows "logger env src br w = (br_logger br, br, w\<lparr>outdir_exists := True\<rparr>)"
  using assms by (simp add: logger_def Let_def)

lemma logger_first_state:
  assumes "br_saved_logpath br = None" and "length (log_handlers w (logger_name src br)) \<le> 1"
    and "\<forall>p i. log_dir w p = Some i \<longrightarrow> i < length (log_data w)"
    and "logger env src br w = (lg, br1, w1)"
  shows "\<exists>ino. log_handlers w1 (logger_name src br) = [ino] \<and>
           log_dir w1 (buildlog env src br) = Some ino \<and>
           ino < length (log_data w1) \<and>
           log_data w1 ! ino = (case read_log w (buildlog env src br) of None \<Rightarrow> [] | Some c \<Rightarrow> c) \<and>
           br1 = br\<lparr>br_logger := Some (logger_name src br),
                     br_saved_logpath := Some (buildlog env src br)\<rparr> \<and>
           lg = Some (logger_name src br)"
proof (cases "log_dir w (buildlog env src br)")
  case None
  then show ?thesis
    using assms(4) [unfolded logger_first [OF assms(1,2)]]
    by (auto simp: read_log_def nth_append)
next
  case (Some ino)
  then have "ino < length (log_data w)"
    using assms(3) by blast
  then show ?thesis
    using assms(4) [unfolded logger_first [OF assms(1,2)]] Some
    by (auto simp: read_log_def)
qed

lemma logger_keeps_one_handler:
  assumes "length (log_handlers w (logger_name src br)) \<le> 1"
    and "logger env src br w = (lg, br', w')"
  shows "length (log_handlers w' (logger_name src br)) \<le> 1"
  using assms
  by (auto simp: logger_def Let_def file_handler_def rename_def remove_handlers_short
      split: if_splits option.splits)

section \<open>Facts about whole build attempts\<close>

lemmas build_start_eval =
  build_start_def Let_def insert_record_def save_record_def
  save_package_source_def db_save_def record_violation_def in_integer_range_def
  save_source_def logger_def file_handler_def
  checkout_def checkout_body_def then_do_def mkdtemp_def ret_def
  try_except_reraise_def run_cmd_def rmtree_def
  example_source_def empty_world_def truthy_def
  path_join_def startswith_def endswith_def strip_def is_space_def
  buildlog_def buildlogdir_def logpath_def long_name_def logger_name_def source_name_def
  str_int_def str_nat.simps digit_char_def str_opt_def build_record.truncate_def

lemma build_start_example_env:
  "fst (build_start example_env example_source empty_world) =
     Inr (''/tmp/tmpA1'', ''/tmp/tmpA1/build'', 0,
          \<lparr>br_source = 1, br_version = Some [], br_build_counter = 1,
           br_sha = Some ''output of git rev-parse HEAD'',
           br_logger = Some ''buildsvc.pkgbuild.myrepo_1'',
           br_saved_logpath = Some ''/srv/public/buildlogs/anand0707_myrepo/anand0707_myrepo_1.tmp.log''\<rparr>)"
  "record_rows (snd (build_start example_env example_source empty_world)) =
     [\<lparr>br_source = 1, br_version = Some [], br_build_counter = 1,
       br_sha = Some ''output of git rev-parse HEAD''\<rparr>]"
  by (simp_all add: build_start_eval example_env_def split: prod.splits)

lemma build_start_failing_env:
  "fst (build_start failing_env example_source empty_world) =
     Inr (''/tmp/tmpA1'', ''/tmp/tmpA1/build'', 0,
          \<lparr>br_source = 1, br_version = Some [], br_build_counter = 1,
           br_sha = Some ''output of git rev-parse HEAD'',
           br_logger = Some ''buildsvc.pkgbuild.myrepo_1'',
           br_saved_logpath = Some ''/srv/public/buildlogs/anand0707_myrepo/anand0707_myrepo_1.tmp.log''\<rparr>)"
  "record_rows (snd (build_start failing_env example_source empty_world)) =
     [\<lparr>br_source = 1, br_version = Some [], br_build_counter = 1,
       br_sha = Some ''output of git rev-parse HEAD''\<rparr>]"
  by (simp_all add: build_start_eval failing_env_def example_env_def include_b_def
      split: prod.splits)

lemma build_start_record_save_fails:
  "fst (build_start record_save_fails_env example_source empty_world) = Inl DatabaseError"
  "tmpdirs (snd (build_start record_save_fails_env example_source empty_world))
         = {''/tmp/tmpA1''}"
  by (simp_all add: build_start_eval record_save_fails_env_def example_env_def
      split: prod.splits)

lemma build_start_full_counter:
  "fst (build_start example_env full_counter_source
          (empty_world\<lparr>source_rows := [1 \<mapsto> full_counter_source]\<rparr>)) = Inl DataError"
  "source_rows (snd (build_start example_env full_counter_source
          (empty_world\<lparr>source_rows := [1 \<mapsto> full_counter_source]\<rparr>))) 1
         = Some full_counter_source"
  by (simp_all add: build_start_def Let_def save_package_source_def db_save_def
      in_integer_range_def then_do_def example_env_def full_counter_source_def
      example_source_def empty_world_def)

lemma build_start_effect:
  assumes "build_start env self w = (r, w')"
  shows "pool w' = pool w \<and> index w' = index w"
    and "if save_error env (clock w) = None \<and> in_integer_range (build_counter self + 1)
         then source_rows w' =
                (source_rows w)(ps_id self \<mapsto> self\<lparr>build_counter := build_counter self + 1\<rparr>)
         else (\<exists>e. r = Inl e) \<and> source_rows w' = source_rows w \<and> tmpdirs w' = tmpdirs w"
    and "case r of
           Inr x \<Rightarrow> fst x \<notin> tmpdirs w \<and> tmpdirs w' = insert (fst x) (tmpdirs w) \<and> outdir_exists w'
         | Inl e \<Rightarrow> tmpdirs w' = tmpdirs w \<or>
                    (\<exists>d. d \<notin> tmpdirs w \<and> tmpdirs w' = insert d (tmpdirs w))"
proof -
  let ?self1 = "self\<lparr>build_counter := build_counter self + 1\<rparr>"
  have all: "(pool w' = pool w \<and> index w' = index w) \<and>
      (if save_error env (clock w) = None \<and> in_integer_range (build_counter self + 1)
         then source_rows w' = (source_rows w)(ps_id self \<mapsto> ?self1)
         else (\<exists>e. r = Inl e) \<and> source_rows w' = source_rows w \<and> tmpdirs w' = tmpdirs w) \<and>
      (case r of
           Inr x \<Rightarrow> fst x \<notin> tmpdirs w \<and> tmpdirs w' = insert (fst x) (tmpdirs w) \<and> outdir_exists w'
         | Inl e \<Rightarrow> tmpdirs w' = tmpdirs w \<or>
                    (\<exists>d. d \<notin> tmpdirs w \<and> tmpdirs w' = insert d (tmpdirs w)))"
    using assms unfolding build_start_def Let_def
  proof (cases rule: then_do_cases)
    case (fails e)
    then show ?thesis
      using save_package_source_effect [OF fails(1)] by (auto split: if_splits)
  next
    case (goes_on u w1)
    note s1 = save_package_source_effect [OF goes_on(1)]
    have ok: "save_error env (clock w) = None \<and> in_integer_range (build_counter self + 1)"
      using s1 by (auto split: if_splits)
    note rest = after_counter_effect [OF goes_on(2)]
    show ?thesis
      using s1 ok rest by (auto split: sum.splits)
  qed
  show "pool w' = pool w \<and> index w' = index w"
    using all by blast
  show "if save_error env (clock w) = None \<and> in_integer_range (build_counter self + 1)
         then source_rows w' = (source_rows w)(ps_id self \<mapsto> ?self1)
         else (\<exists>e. r = Inl e) \<and> source_rows w' = source_rows w \<and> tmpdirs w' = tmpdirs w"
    using all by blast
  show "case r of
           Inr x \<Rightarrow> fst x \<notin> tmpdirs w \<and> tmpdirs w' = insert (fst x) (tmpdirs w) \<and> outdir_exists w'
         | Inl e \<Rightarrow> tmpdirs w' = tmpdirs w \<or>
                    (\<exists>d. d \<notin> tmpdirs w \<and> tmpdirs w' = insert d (tmpdirs w))"
    using all by blast
qed

lemma build_real_effect:
  assumes "build_real env series_name self w = (r, w')"
  shows "if save_error env (clock w) = None \<and> in_integer_range (build_counter self + 1)
         then source_rows w' =
                (source_rows w)(ps_id self \<mapsto> self\<lparr>build_counter := build_counter self + 1\<rparr>)
         else (\<exists>e. r = Inl e) \<and> source_rows w' = source_rows w"
    and "tmpdirs w' = tmpdirs w \<or>
         (\<exists>e d. r = Inl e \<and> d \<notin> tmpdirs w \<and> tmpdirs w' = insert d (tmpdirs w))"
proof -
  have both: "(if save_error env (clock w) = None \<and> in_integer_range (build_counter self + 1)
         then source_rows w' =
                (source_rows w)(ps_id self \<mapsto> self\<lparr>build_counter := build_counter self + 1\<rparr>)
         else (\<exists>e. r = Inl e) \<and> source_rows w' = source_rows w) \<and>
      (tmpdirs w' = tmpdirs w \<or>
         (\<exists>e d. r = Inl e \<and> d \<notin> tmpdirs w \<and> tmpdirs w' = insert d (tmpdirs w)))"
    using assms unfolding build_real_def
  proof (cases rule: then_do_cases)
    case (fails e)
    then show ?thesis
      using build_start_effect(2,3) [OF fails(1)] by (auto split: if_splits)
  next
    case (goes_on x w1)
    obtain tmpdir builddir rid b where x: "x = (tmpdir, builddir, rid, b)"
      by (cases x)
    obtain r2 w2 where body: "build_and_publish env series_name tmpdir builddir rid b w1 = (r2, w2)"
      by (cases "build_and_publish env series_name tmpdir builddir rid b w1")
    have w2: "source_rows w2 = source_rows w1" "tmpdirs w2 = tmpdirs w1"
      using preservesD [OF preserves_build_and_publish [OF repo_independent_source_rows] body]
        preservesD [OF preserves_build_and_publish [OF repo_independent_tmpdirs] body]
      by simp_all
    have "w' = rmtree tmpdir w2"
      using goes_on(2) body x by (simp add: try_finally_def)
    then show ?thesis
      using build_start_effect(2,3) [OF goes_on(1)] w2 x
      by (auto simp: rmtree_def split: if_splits)
  qed
  show "if save_error env (clock w) = None \<and> in_integer_range (build_counter self + 1)
         then source_rows w' =
                (source_rows w)(ps_id self \<mapsto> self\<lparr>build_counter := build_counter self + 1\<rparr>)
         else (\<exists>e. r = Inl e) \<and> source_rows w' = source_rows w"
    using both by blast
  show "tmpdirs w' = tmpdirs w \<or>
         (\<exists>e d. r = Inl e \<and> d \<notin> tmpdirs w \<and> tmpdirs w' = insert d (tmpdirs w))"
    using both by blast
qed

lemma build_real_of_failed_start:
  "build_start env self w = (Inl e, w') \<Longrightarrow> build_real env series_name self w = (Inl e, w')"
  unfolding build_real_def by (subst then_do_def) simp

lemma build_start_clone_fails:
  "fst (build_start clone_fails_env example_source
        (empty_world\<lparr>source_rows := [1 \<mapsto> example_source]\<rparr>))
     = Inl (CommandFailed [''git'', ''clone'', ''https://github.com/anand0707/myrepo'', ''-b'',
                          ''main'', ''build''])"
  by (simp add: build_start_eval clone_fails_env_def example_env_def split: prod.splits)

lemma build_real_clone_fails:
  "fst (build_real clone_fails_env ''trusty'' example_source
        (empty_world\<lparr>source_rows := [1 \<mapsto> example_source]\<rparr>))
     = Inl (CommandFailed [''git'', ''clone'', ''https://github.com/anand0707/myrepo'', ''-b'',
                          ''main'', ''build''])"
proof -
  let ?w = "empty_world\<lparr>source_rows := [1 \<mapsto> example_source]\<rparr>"
  obtain w' where "build_start clone_fails_env example_source ?w
          = (Inl (CommandFailed [''git'', ''clone'', ''https://github.com/anand0707/myrepo'',
                    ''-b'', ''main'', ''build'']), w')"
    using build_start_clone_fails by (metis prod.collapse)
  then show ?thesis
    using build_real_of_failed_start by simp
qed

lemma build_real_file_fails:
  assumes "build_start env self w = (Inr (tmpdir, builddir, rid, br), wa)"
    and "run_builder env tmpdir builddir rid br wa = (Inr (pre @ f # post), wb)"
    and "process_all env series_name (map (path_join tmpdir) pre) wb = (Inr (), wc)"
    and "process_changes env series_name (path_join tmpdir f) wc = (Inl e, wd)"
  shows "build_real env series_name self w = (Inl e, rmtree tmpdir wd)"
    "record_rows (rmtree tmpdir wd) = record_rows wb"
proof -
  have loop: "process_all env series_name (map (path_join tmpdir) (pre @ f # post)) wb = (Inl e, wd)"
    using process_all_append [OF assms(3), of "map (path_join tmpdir) (f # post)"] assms(4)
    by (simp add: then_do_def)
  have body: "build_and_publish env series_name tmpdir builddir rid br wa = (Inl e, wd)"
    unfolding build_and_publish_def
    using loop by (subst then_do_def) (simp add: assms(2) then_do_def)
  show "build_real env series_name self w = (Inl e, rmtree tmpdir wd)"
    unfolding build_real_def
    by (subst then_do_def) (simp add: assms(1) try_finally_def body)
  have "record_rows wc = record_rows wb"
    using preservesD [OF preserves_process_all [OF repo_independent_record_rows] assms(3)] .
  moreover have "record_rows wd = record_rows wc"
    using preservesD [OF preserves_process_changes [OF repo_independent_record_rows] assms(4)] .
  ultimately show "record_rows (rmtree tmpdir wd) = record_rows wb"
    by (simp add: rmtree_def)
qed

lemma build_real_all_published:
  assumes "build_start env self w = (Inr (tmpdir, builddir, rid, br), wa)"
    and "run_builder env tmpdir builddir rid br wa = (Inr files, wb)"
    and "process_all env series_name (map (path_join tmpdir) files) wb = (Inr (), wc)"
    and "export env wc = (r, wd)"
  shows "build_real env series_name self w = (r, rmtree tmpdir wd)"
    "record_rows (rmtree tmpdir wd) = record_rows wb"
proof -
  have body: "build_and_publish env series_name tmpdir builddir rid br wa = (r, wd)"
    unfolding build_and_publish_def
    by (subst then_do_def) (simp add: assms(2) assms(3) assms(4) then_do_def)
  show "build_real env series_name self w = (r, rmtree tmpdir wd)"
    unfolding build_real_def
    by (subst then_do_def) (simp add: assms(1) try_finally_def body)
  have "record_rows wc = record_rows wb"
    using preservesD [OF preserves_process_all [OF repo_independent_record_rows] assms(3)] .
  moreover have "record_rows wd = record_rows wc"
    using preservesD [OF preserves_export_ri [OF repo_independent_record_rows] assms(4)] .
  ultimately show "record_rows (rmtree tmpdir wd) = record_rows wb"
    by (simp add: rmtree_def)
qed

lemma example_paths:
  "path_join ''/tmp/tmpA1'' ''a.changes'' = ''/tmp/tmpA1/a.changes''"
  "path_join ''/tmp/tmpA1'' ''b.changes'' = ''/tmp/tmpA1/b.changes''"
  "path_join ''/tmp/tmpA1'' ''c.changes'' = ''/tmp/tmpA1/c.changes''"
  by (simp_all add: path_join_def startswith_def endswith_def)

text \<open>
  The build of the example source in the environment whose repository tool refuses
  \<^verbatim>\<open>b.changes\<close>, stage by stage.
\<close>

lemma failing_run:
  obtains tmpdir builddir rid br wa wb wc wd where
    "build_start failing_env example_source empty_world = (Inr (tmpdir, builddir, rid, br), wa)"
    "run_builder failing_env tmpdir builddir rid br wa
       = (Inr ([''a.changes''] @ ''b.changes'' # [''c.changes'']), wb)"
    "process_all failing_env ''trusty'' (map (path_join tmpdir) [''a.changes'']) wb = (Inr (), wc)"
    "process_changes failing_env ''trusty'' (path_join tmpdir ''b.changes'') wc
       = (Inl (CommandFailed include_b), wd)"
    "record_rows wb = [\<lparr>br_source = 1, br_version = Some ''1.0'', br_build_counter = 1,
                        br_sha = Some ''output of git rev-parse HEAD''\<rparr>]"
    "pool wd = [(''trusty'', stripped_of ''a'')]" "index wd = [(''trusty'', stripped_of ''a'')]"
proof -
  let ?d = "''/tmp/tmpA1''"
  let ?bd = "''/tmp/tmpA1/build''"
  let ?br = "\<lparr>br_source = 1, br_version = Some [], br_build_counter = 1,
           br_sha = Some ''output of git rev-parse HEAD'',
           br_logger = Some ''buildsvc.pkgbuild.myrepo_1'',
           br_saved_logpath = Some ''/srv/public/buildlogs/anand0707_myrepo/anand0707_myrepo_1.tmp.log''\<rparr>"
  let ?a = "''/tmp/tmpA1/a.changes''"
  let ?b = "''/tmp/tmpA1/b.changes''"
  obtain r1 wa where e1: "build_start failing_env example_source empty_world = (r1, wa)"
    by (cases "build_start failing_env example_source empty_world")
  have h1: "build_start failing_env example_source empty_world = (Inr (?d, ?bd, 0, ?br), wa)"
    using build_start_failing_env(1) e1 by simp
  have ra: "record_rows wa = [\<lparr>br_source = 1, br_version = Some [], br_build_counter = 1,
       br_sha = Some ''output of git rev-parse HEAD''\<rparr>]"
    using build_start_failing_env(2) e1 by simp
  have oa: "outdir_exists wa"
    using build_start_effect(3) [OF h1] by simp
  obtain r2 wb where e2: "run_builder failing_env ?d ?bd 0 ?br wa = (r2, wb)"
    by (cases "run_builder failing_env ?d ?bd 0 ?br wa")
  note rb = run_builder_examples [of failing_env ?bd 0 ?br wa, simplified e2 fst_conv snd_conv]
  have h2: "run_builder failing_env ?d ?bd 0 ?br wa
              = (Inr ([''a.changes''] @ ''b.changes'' # [''c.changes'']), wb)"
    using rb e2 by simp
  have mb: "manifests wb ?a = Some (changes_of ''a'')" "manifests wb ?b = Some (changes_of ''b'')"
    and ob: "outdir_exists wb"
    using rb oa by simp_all
  have rwb: "record_rows wb = [\<lparr>br_source = 1, br_version = Some ''1.0'', br_build_counter = 1,
                        br_sha = Some ''output of git rev-parse HEAD''\<rparr>]"
    using rb ra by (simp add: build_record.truncate_def)
  have ne: "?a \<noteq> ?b"
    by simp
  obtain r3 wc where e3: "process_changes failing_env ''trusty'' ?a wb = (r3, wc)"
    by (cases "process_changes failing_env ''trusty'' ?a wb")
  have a: "process_changes failing_env ''trusty'' ?a wb = (Inr (), wc)"
    using failing_env_other [OF mb(1) ne ob] e3 by simp
  have h3: "process_all failing_env ''trusty'' (map (path_join ?d) [''a.changes'']) wb = (Inr (), wc)"
    using a by (simp add: example_paths then_do_def ret_def)
  have mc: "manifests wc ?b = Some (changes_of ''b'')"
    using process_changes_other_manifests [OF a, of ?b] mb(2) by simp
  obtain r4 wd where e4: "process_changes failing_env ''trusty'' ?b wc = (r4, wd)"
    by (cases "process_changes failing_env ''trusty'' ?b wc")
  have b: "process_changes failing_env ''trusty'' ?b wc = (Inl (CommandFailed include_b), wd)"
    using failing_env_b [OF mc] e4 by simp
  have h4: "process_changes failing_env ''trusty'' (path_join ?d ''b.changes'') wc
              = (Inl (CommandFailed include_b), wd)"
    using b by (simp add: example_paths)
  have p0: "pool wb = []" "index wb = []"
    using build_start_effect(1) [OF h1] run_builder_pool [OF h2] by (simp_all add: empty_world_def)
  have pc: "pool wc = [(''trusty'', stripped_of ''a'')]" "index wc = pool wc"
    using process_changes_cases [OF a] mb(1) p0 by (auto simp: strip_changes_of)
  have pd: "pool wd = pool wc" "index wd = index wc"
    using failing_env_b [OF mc] e4 by simp_all
  show ?thesis
    using that [OF h1 h2 h3 h4 rwb] pc pd by simp
qed

text \<open>The same build in the environment in which every command succeeds.\<close>

lemma successful_run:
  "fst (build_real example_env ''trusty'' example_source empty_world) = Inr ()"
  "record_rows (snd (build_real example_env ''trusty'' example_source empty_world))
     = [\<lparr>br_source = 1, br_version = Some ''1.0'', br_build_counter = 1,
         br_sha = Some ''output of git rev-parse HEAD''\<rparr>]"
proof -
  let ?d = "''/tmp/tmpA1''"
  let ?bd = "''/tmp/tmpA1/build''"
  let ?br = "\<lparr>br_source = 1, br_version = Some [], br_build_counter = 1,
           br_sha = Some ''output of git rev-parse HEAD'',
           br_logger = Some ''buildsvc.pkgbuild.myrepo_1'',
           br_saved_logpath = Some ''/srv/public/buildlogs/anand0707_myrepo/anand0707_myrepo_1.tmp.log''\<rparr>"
  let ?a = "''/tmp/tmpA1/a.changes''"
  let ?b = "''/tmp/tmpA1/b.changes''"
  let ?c = "''/tmp/tmpA1/c.changes''"
  note oe = preservesD [OF preserves_process_changes [OF repo_independent_outdir_exists]]
  obtain r1 wa where e1: "build_start example_env example_source empty_world = (r1, wa)"
    by (cases "build_start example_env example_source empty_world")
  have h1: "build_start example_env example_source empty_world = (Inr (?d, ?bd, 0, ?br), wa)"
    using build_start_example_env(1) e1 by simp
  have ra: "record_rows wa = [\<lparr>br_source = 1, br_version = Some [], br_build_counter = 1,
       br_sha = Some ''output of git rev-parse HEAD''\<rparr>]"
    using build_start_example_env(2) e1 by simp
  have oa: "outdir_exists wa"
    using build_start_effect(3) [OF h1] by simp
  obtain r2 wb where e2: "run_builder example_env ?d ?bd 0 ?br wa = (r2, wb)"
    by (cases "run_builder example_env ?d ?bd 0 ?br wa")
  note rb = run_builder_examples [of example_env ?bd 0 ?br wa, simplified e2 fst_conv snd_conv]
  have h2: "run_builder example_env ?d ?bd 0 ?br wa
              = (Inr [''a.changes'', ''b.changes'', ''c.changes''], wb)"
    using rb e2 by simp
  have mb: "manifests wb ?a = Some (changes_of ''a'')" "manifests wb ?b = Some (changes_of ''b'')"
    "manifests wb ?c = Some (changes_of ''c'')"
    and ob: "outdir_exists wb"
    using rb oa by simp_all
  have rwb: "record_rows wb = [\<lparr>br_source = 1, br_version = Some ''1.0'', br_build_counter = 1,
                        br_sha = Some ''output of git rev-parse HEAD''\<rparr>]"
    using rb ra by (simp add: build_record.truncate_def)
  obtain ra1 w1 where ea: "process_changes example_env ''trusty'' ?a wb = (ra1, w1)"
    by (cases "process_changes example_env ''trusty'' ?a wb")
  have a: "process_changes example_env ''trusty'' ?a wb = (Inr (), w1)"
    using example_env_process [OF mb(1) ob] ea by simp
  have m1: "manifests w1 ?b = Some (changes_of ''b'')" "manifests w1 ?c = Some (changes_of ''c'')"
    and o1: "outdir_exists w1"
    using process_changes_other_manifests [OF a, of ?b]
      process_changes_other_manifests [OF a, of ?c] mb oe [OF a] ob by simp_all
  obtain rb1 w2 where eb: "process_changes example_env ''trusty'' ?b w1 = (rb1, w2)"
    by (cases "process_changes example_env ''trusty'' ?b w1")
  have b: "process_changes example_env ''trusty'' ?b w1 = (Inr (), w2)"
    using example_env_process [OF m1(1) o1] eb by simp
  have m2: "manifests w2 ?c = Some (changes_of ''c'')"
    and o2: "outdir_exists w2"
    using process_changes_other_manifests [OF b, of ?c] m1 oe [OF b] o1 by simp_all
  obtain rc1 w3 where ec: "process_changes example_env ''trusty'' ?c w2 = (rc1, w3)"
    by (cases "process_changes example_env ''trusty'' ?c w2")
  have c: "process_changes example_env ''trusty'' ?c w2 = (Inr (), w3)"
    using example_env_process [OF m2 o2] ec by simp
  have o3: "outdir_exists w3"
    using oe [OF c] o2 by simp
  have h3: "process_all example_env ''trusty''
              (map (path_join ?d) [''a.changes'', ''b.changes'', ''c.changes'']) wb = (Inr (), w3)"
    using a b c by (simp add: example_paths then_do_def ret_def)
  obtain r4 w4 where e4: "export example_env w3 = (r4, w4)"
    by (cases "export example_env w3")
  have h4: "export example_env w3 = (Inr (), w4)"
    using example_env_export [OF o3] e4 by simp
  note th = build_real_all_published [OF h1 h2 h3 h4]
  show "fst (build_real example_env ''trusty'' example_source empty_world) = Inr ()"
    using th(1) by simp
  show "record_rows (snd (build_real example_env ''trusty'' example_source empty_world))
     = [\<lparr>br_source = 1, br_version = Some ''1.0'', br_build_counter = 1,
         br_sha = Some ''output of git rev-parse HEAD''\<rparr>]"
    using th rwb by simp
qed


lemma export_without_outdir:
  "fst (export example_env (empty_world\<lparr>outdir_exists := False\<rparr>))
     = Inl (IOError ''/srv/public/repo.key'') \<and>
   key_id_row (snd (export example_env (empty_world\<lparr>outdir_exists := False\<rparr>)))
     = Some ''FAKEID''"
  by (simp add: then_do_def ensure_directory_structure_def reprepro_def run_cmd_def
      export_def ensure_key_def generate_key_def ret_def modify_def export_key_def truthy_def
      save_repository_def db_save_def example_env_def empty_world_def path_join_def
      startswith_def endswith_def)

section \<open>Verified properties\<close>

subsection \<open>Log paths\<close>

text \<open>
  C8. \<^verbatim>\<open>BuildRecord.logpath\<close> joins its two components with \<^verbatim>\<open>os.path.join\<close>, which
  puts no separator after an empty first component. For a source whose URL path has no
  non-empty segment (\<^verbatim>\<open>https://github.com/\<close>), \<^verbatim>\<open>long_name\<close> is empty and the log
  path of version 1.0 is \<^verbatim>\<open>_1.0.log\<close>, not \<^verbatim>\<open>/_1.0.log\<close>.
\<close>

theorem logpath_empty_long_name:
  "logpath (long_name ''/'')
     \<lparr>br_source = 1, br_version = Some ''1.0'', br_build_counter = 3, br_sha = None\<rparr>
     = ''_1.0.log'' \<and>
   logpath (long_name ''/'')
     \<lparr>br_source = 1, br_version = Some ''1.0'', br_build_counter = 3, br_sha = None\<rparr>
     \<noteq> long_name ''/'' @ ''/'' @ long_name ''/'' @ ''_'' @ ''1.0'' @ ''.log''"
  by (simp add: long_name_def logpath_def truthy_def str_opt_def path_join_def
      startswith_def endswith_def)

text \<open>
  C8, amended. For every build record whose source has a non-empty \<^verbatim>\<open>long_name\<close>, the
  relative log path is \<^verbatim>\<open><long_name>/<long_name>_<version>.log\<close> when the version is
  a non-empty string, and \<^verbatim>\<open><long_name>/<long_name>_<build_counter>.tmp.log\<close> when the
  version is \<^verbatim>\<open>None\<close> or empty.
\<close>

theorem logpath_format:
  assumes "long_name p \<noteq> []"
  shows "(\<forall>v. br_version self = Some v \<and> v \<noteq> [] \<longrightarrow>
            logpath (long_name p) self =
              long_name p @ ''/'' @ long_name p @ ''_'' @ v @ ''.log'') \<and>
         (br_version self = None \<or> br_version self = Some [] \<longrightarrow>
            logpath (long_name p) self =
              long_name p @ ''/'' @ long_name p @ ''_'' @
                str_int (br_build_counter self) @ ''.tmp.log'')"
  using path_join_plain [OF long_name_no_slash assms]
  by (auto simp: logpath_def truthy_def str_opt_def)

theorem logpath_format_witness:
  "logpath (long_name ''/anand0707/myrepo'')
     \<lparr>br_source = 1, br_version = Some ''1.0'', br_build_counter = 3, br_sha = None\<rparr>
     = ''anand0707_myrepo/anand0707_myrepo_1.0.log'' \<and>
   logpath (long_name ''/anand0707/myrepo'')
     \<lparr>br_source = 1, br_version = None, br_build_counter = 3, br_sha = None\<rparr>
     = ''anand0707_myrepo/anand0707_myrepo_3.tmp.log''"
proof -
  have ln: "long_name ''/anand0707/myrepo'' = ''anand0707_myrepo''"
    by (simp add: long_name_def)
  have three: "str_int 3 = ''3''"
    by (simp add: str_int_def str_nat.simps digit_char_def)
  have ne: "long_name ''/anand0707/myrepo'' \<noteq> []"
    by (simp add: ln)
  show ?thesis
    using logpath_format [OF ne, of "\<lparr>br_source = 1, br_version = Some ''1.0'', br_build_counter = 3, br_sha = None\<rparr>"]
      logpath_format [OF ne, of "\<lparr>br_source = 1, br_version = None, br_build_counter = 3, br_sha = None\<rparr>"]
    by (simp add: ln three)
qed

subsection \<open>Source list line of an external dependency\<close>

text \<open>
  C10. When the \<^verbatim>\<open>components\<close> column of an external dependency is null,
  \<^verbatim>\<open>deb_line\<close> is \<^verbatim>\<open>deb <url> <series> None\<close>: the text None stands where the
  components would be.
\<close>

theorem deb_line_null_components:
  "ed_components self = None \<Longrightarrow>
   deb_line self = ''deb '' @ ed_url self @ '' '' @ ed_series self @ '' None''"
  by (simp add: deb_line_def str_opt_def)

theorem deb_line_null_components_witness:
  "deb_line \<lparr>ed_url = ''http://archive.ubuntu.com/ubuntu'', ed_series = ''trusty'',
              ed_components = None, ed_key = ''''\<rparr>
     = ''deb http://archive.ubuntu.com/ubuntu trusty None''"
  using deb_line_null_components
    [of "\<lparr>ed_url = ''http://archive.ubuntu.com/ubuntu'', ed_series = ''trusty'',
           ed_components = None, ed_key = ''''\<rparr>"]
  by simp

subsection \<open>Polling\<close>

text \<open>
  C1. For every package source and every poll whose remote query succeeds: the remote
  hash is the output up to the first tab; \<^verbatim>\<open>poll\<close> returns \<^verbatim>\<open>True\<close> exactly when that
  hash differs from \<^verbatim>\<open>last_seen_revision\<close>, and then the object with the new hash is
  what is saved; it returns \<^verbatim>\<open>False\<close> and changes neither the object nor the table
  when the hash is the same. \<^verbatim>\<open>last_seen_revision\<close> changes exactly when the result is
  \<^verbatim>\<open>True\<close>, and a following poll that sees the same hash returns \<^verbatim>\<open>False\<close> and
  changes nothing.
\<close>

theorem poll_changed_iff:
  assumes "run (poll_cmd self) = Inr stdout"
    and "poll run (self, db) = (res, self', db')"
  shows "res = Inr (Some (takeWhile (\<lambda>c. c \<noteq> TAB) stdout) \<noteq> last_seen_revision self) \<and>
    (res = Inr True \<longrightarrow>
       last_seen_revision self' = Some (takeWhile (\<lambda>c. c \<noteq> TAB) stdout) \<and>
       db' = db(ps_id self \<mapsto> self') \<and>
       self' = self\<lparr>last_seen_revision := Some (takeWhile (\<lambda>c. c \<noteq> TAB) stdout)\<rparr>) \<and>
    (res = Inr False \<longrightarrow> self' = self \<and> db' = db) \<and>
    (last_seen_revision self' \<noteq> last_seen_revision self \<longleftrightarrow> res = Inr True) \<and>
    (\<forall>run2 stdout2.
       run2 (poll_cmd self') = Inr stdout2 \<and>
       takeWhile (\<lambda>c. c \<noteq> TAB) stdout2 = takeWhile (\<lambda>c. c \<noteq> TAB) stdout \<longrightarrow>
       poll run2 (self', db') = (Inr False, self', db'))"
proof -
  let ?sha = "takeWhile (\<lambda>c. c \<noteq> TAB) stdout"
  show ?thesis
  proof (cases "Some ?sha = last_seen_revision self")
    case True
    then have "res = Inr False" "self' = self" "db' = db"
      using assms by (auto simp: poll_success)
    then show ?thesis
      using True by (auto simp: poll_success)
  next
    case False
    then have "res = Inr True" "self' = self\<lparr>last_seen_revision := Some ?sha\<rparr>"
      "db' = save_source (self\<lparr>last_seen_revision := Some ?sha\<rparr>) db"
      using assms by (auto simp: poll_success)
    then show ?thesis
      using False by (auto simp: poll_success save_source_def)
  qed
qed

theorem poll_changed_iff_witness:
  "poll ls_remote_abc123 (example_source, Map.empty) =
     (Inr True, example_source\<lparr>last_seen_revision := Some ''abc123''\<rparr>,
      [1 \<mapsto> example_source\<lparr>last_seen_revision := Some ''abc123''\<rparr>]) \<and>
   poll ls_remote_abc123
     (example_source\<lparr>last_seen_revision := Some ''abc123''\<rparr>,
      [1 \<mapsto> example_source\<lparr>last_seen_revision := Some ''abc123''\<rparr>]) =
     (Inr False, example_source\<lparr>last_seen_revision := Some ''abc123''\<rparr>,
      [1 \<mapsto> example_source\<lparr>last_seen_revision := Some ''abc123''\<rparr>])"
proof -
  let ?out = "''abc123'' @ [TAB] @ ''refs/heads/main'' @ [CHR 0x0A]"
  let ?p = "poll ls_remote_abc123 (example_source, Map.empty)"
  have h1: "ls_remote_abc123 (poll_cmd example_source) = Inr ?out"
    by (simp add: ls_remote_abc123_def)
  have h2: "?p = (fst ?p, fst (snd ?p), snd (snd ?p))"
    by simp
  have sha: "takeWhile (\<lambda>c. c \<noteq> TAB) ?out = ''abc123''"
    by (simp add: TAB_def)
  note th = poll_changed_iff [OF h1 h2, unfolded sha]
  have r: "fst ?p = Inr True"
    using th by (simp add: example_source_def)
  have s: "fst (snd ?p) = example_source\<lparr>last_seen_revision := Some ''abc123''\<rparr>"
    using th r by simp
  have d: "snd (snd ?p) = [1 \<mapsto> example_source\<lparr>last_seen_revision := Some ''abc123''\<rparr>]"
    using th r s by (simp add: example_source_def)
  have first: "?p = (Inr True, example_source\<lparr>last_seen_revision := Some ''abc123''\<rparr>,
      [1 \<mapsto> example_source\<lparr>last_seen_revision := Some ''abc123''\<rparr>])"
    using h2 r s d by simp
  have "ls_remote_abc123 (poll_cmd (fst (snd ?p))) = Inr ?out \<and>
        takeWhile (\<lambda>c. c \<noteq> TAB) ?out = ''abc123''"
    by (simp add: ls_remote_abc123_def TAB_def)
  then have "poll ls_remote_abc123 (fst (snd ?p), snd (snd ?p)) = (Inr False, fst (snd ?p), snd (snd ?p))"
    using th by blast
  then show ?thesis
    using first by simp
qed

text \<open>
  C9. When the remote query succeeds with empty output, the hash is the empty string;
  unless \<^verbatim>\<open>last_seen_revision\<close> is already the empty string, \<^verbatim>\<open>poll\<close> saves the empty
  string as \<^verbatim>\<open>last_seen_revision\<close> and returns \<^verbatim>\<open>True\<close>; it raises nothing.
\<close>

theorem poll_empty_output:
  assumes "run (poll_cmd self) = Inr []" and "last_seen_revision self \<noteq> Some []"
  shows "poll run (self, db) =
           (Inr True, self\<lparr>last_seen_revision := Some []\<rparr>,
            db(ps_id self \<mapsto> self\<lparr>last_seen_revision := Some []\<rparr>))"
  using assms by (auto simp: poll_def index0_def save_source_def Let_def)

theorem poll_empty_output_witness:
  "poll ls_remote_nothing (example_source, Map.empty) =
     (Inr True, example_source\<lparr>last_seen_revision := Some []\<rparr>,
      [1 \<mapsto> example_source\<lparr>last_seen_revision := Some []\<rparr>])"
  using poll_empty_output [of ls_remote_nothing example_source Map.empty]
  by (simp add: ls_remote_nothing_def example_source_def)

subsection \<open>Publishing a changes file\<close>



subsection \<open>Key material\<close>




subsection \<open>Build attempts\<close>

text \<open>
  C2. \<^verbatim>\<open>build_counter\<close> is an \<^verbatim>\<open>IntegerField\<close>. For a source whose counter is
  2147483647, the largest value of the column, the \<^verbatim>\<open>save()\<close> that opens
  \<^verbatim>\<open>build_real\<close> is refused; the attempt ends with that error and the saved counter is
  2147483647 as before, not one more.
\<close>

theorem build_counter_not_saved_at_bound:
  "build_counter full_counter_source = 2147483647 \<and>
   source_rows (empty_world\<lparr>source_rows := [1 \<mapsto> full_counter_source]\<rparr>) 1
     = Some full_counter_source \<and>
   fst (build_real example_env ''trusty'' full_counter_source
          (empty_world\<lparr>source_rows := [1 \<mapsto> full_counter_source]\<rparr>)) = Inl DataError \<and>
   map_option build_counter
     (source_rows (snd (build_real example_env ''trusty'' full_counter_source
          (empty_world\<lparr>source_rows := [1 \<mapsto> full_counter_source]\<rparr>))) 1) = Some 2147483647"
proof -
  let ?w = "empty_world\<lparr>source_rows := [1 \<mapsto> full_counter_source]\<rparr>"
  let ?s = "build_start example_env full_counter_source ?w"
  have "?s = (Inl DataError, snd ?s)"
    using build_start_full_counter(1) by (metis prod.collapse)
  from build_real_of_failed_start [OF this]
  have "build_real example_env ''trusty'' full_counter_source ?w = (Inl DataError, snd ?s)" .
  then show ?thesis
    using build_start_full_counter(2) by (simp add: full_counter_source_def)
qed

text \<open>
  C2, amended. For every build attempt: when the database accepts the save of the
  incremented counter (it raises no error, and the counter is in the range of the
  column), the table of package sources afterwards differs from the one before in the
  row of this source only, and that row is the object with its \<^verbatim>\<open>build_counter\<close> one
  higher, however the rest of the attempt ends. Otherwise the attempt raises and the
  table is as it was. When the row before the attempt had the counter of the object, the
  saved counter afterwards is the saved counter before or one more: it does not
  decrease.
\<close>

theorem build_counter_incremented:
  assumes "build_real env series_name self w = (r, w')"
  shows "(save_error env (clock w) = None \<and> in_integer_range (build_counter self + 1) \<longrightarrow>
            source_rows w' =
              (source_rows w)(ps_id self \<mapsto> self\<lparr>build_counter := build_counter self + 1\<rparr>)) \<and>
         (\<not> (save_error env (clock w) = None \<and> in_integer_range (build_counter self + 1)) \<longrightarrow>
            source_rows w' = source_rows w \<and> (\<exists>e. r = Inl e)) \<and>
         (\<forall>row. source_rows w (ps_id self) = Some row \<and> build_counter row = build_counter self \<longrightarrow>
            (\<exists>row'. source_rows w' (ps_id self) = Some row' \<and>
               (build_counter row' = build_counter row \<or> build_counter row' = build_counter row + 1)))"
  using build_real_effect(1) [OF assms] by (auto split: if_splits)

theorem build_counter_incremented_witness:
  "map_option build_counter
     (source_rows (snd (build_real example_env ''trusty'' example_source
        (empty_world\<lparr>source_rows := [1 \<mapsto> example_source]\<rparr>))) 1) = Some 1 \<and>
   map_option build_counter
     (source_rows (snd (build_real clone_fails_env ''trusty'' example_source
        (empty_world\<lparr>source_rows := [1 \<mapsto> example_source]\<rparr>))) 1) = Some 1 \<and>
   fst (build_real clone_fails_env ''trusty'' example_source
        (empty_world\<lparr>source_rows := [1 \<mapsto> example_source]\<rparr>))
     = Inl (CommandFailed [''git'', ''clone'', ''https://github.com/anand0707/myrepo'', ''-b'',
                          ''main'', ''build''])"
proof -
  let ?w = "empty_world\<lparr>source_rows := [1 \<mapsto> example_source]\<rparr>"
  let ?p = "build_real example_env ''trusty'' example_source ?w"
  let ?q = "build_real clone_fails_env ''trusty'' example_source ?w"
  have ok: "save_error example_env (clock ?w) = None \<and>
            in_integer_range (build_counter example_source + 1)"
    "save_error clone_fails_env (clock ?w) = None \<and>
            in_integer_range (build_counter example_source + 1)"
    by (simp_all add: example_env_def clone_fails_env_def example_source_def
        in_integer_range_def)
  have p: "?p = (fst ?p, snd ?p)" and q: "?q = (fst ?q, snd ?q)"
    by simp_all
  have "source_rows (snd ?p) =
          (source_rows ?w)(ps_id example_source \<mapsto>
             example_source\<lparr>build_counter := build_counter example_source + 1\<rparr>)"
    using build_counter_incremented [OF p] ok(1) by blast
  moreover have "source_rows (snd ?q) =
          (source_rows ?w)(ps_id example_source \<mapsto>
             example_source\<lparr>build_counter := build_counter example_source + 1\<rparr>)"
    using build_counter_incremented [OF q] ok(2) by blast
  ultimately show ?thesis
    using build_real_clone_fails by (simp add: example_source_def)
qed

text \<open>
  C6. \<^verbatim>\<open>br.save()\<close> of line 289 stands between \<^verbatim>\<open>checkout\<close> and the \<^verbatim>\<open>try\<close>
  statement of \<^verbatim>\<open>build_real\<close>, whose \<^verbatim>\<open>finally\<close> clause removes the temporary
  directory. In an environment whose checkout succeeds and whose database refuses that
  save, \<^verbatim>\<open>build_real\<close> raises the database error and the directory that the checkout
  made is still there: this exit path does not remove it.
\<close>

theorem tmpdir_left_when_record_save_fails:
  "tmpdirs empty_world = {} \<and>
   fst (checkout record_save_fails_env (example_source\<lparr>build_counter := 1\<rparr>) None
          (empty_world\<lparr>clock := 2\<rparr>))
     = Inr (''/tmp/tmpA1'', ''/tmp/tmpA1/build'', ''output of git rev-parse HEAD'') \<and>
   fst (build_real record_save_fails_env ''trusty'' example_source empty_world)
     = Inl DatabaseError \<and>
   tmpdirs (snd (build_real record_save_fails_env ''trusty'' example_source empty_world))
     = {''/tmp/tmpA1''}"
proof -
  let ?s = "build_start record_save_fails_env example_source empty_world"
  have "?s = (Inl DatabaseError, snd ?s)"
    using build_start_record_save_fails(1) by (metis prod.collapse)
  from build_real_of_failed_start [OF this]
  have "build_real record_save_fails_env ''trusty'' example_source empty_world
               = (Inl DatabaseError, snd ?s)" .
  then have "fst (build_real record_save_fails_env ''trusty'' example_source empty_world)
               = Inl DatabaseError"
    and "tmpdirs (snd (build_real record_save_fails_env ''trusty'' example_source empty_world))
               = {''/tmp/tmpA1''}"
    using build_start_record_save_fails(2) by simp_all
  moreover have "fst (checkout record_save_fails_env (example_source\<lparr>build_counter := 1\<rparr>) None
          (empty_world\<lparr>clock := 2\<rparr>))
     = Inr (''/tmp/tmpA1'', ''/tmp/tmpA1/build'', ''output of git rev-parse HEAD'')"
    by (simp add: checkout_def checkout_body_def then_do_def mkdtemp_def Let_def
      try_except_reraise_def run_cmd_def rmtree_def record_save_fails_env_def example_env_def
      truthy_def ret_def example_source_def empty_world_def path_join_def startswith_def
      endswith_def strip_def is_space_def)
  ultimately show ?thesis
    by (simp add: empty_world_def)
qed

text \<open>
  C3. A build record has no column for the outcome of the attempt, and \<^verbatim>\<open>build_real\<close>
  writes nothing when a changes file fails. The attempt whose second changes file is
  refused by the repository tool raises that error and leaves the table of build records
  equal to the one that the attempt without a failure leaves: nothing marks it as
  failed.
\<close>

theorem failed_attempt_not_marked:
  "fst (build_real failing_env ''trusty'' example_source empty_world)
     = Inl (CommandFailed include_b) \<and>
   fst (build_real example_env ''trusty'' example_source empty_world) = Inr () \<and>
   record_rows (snd (build_real failing_env ''trusty'' example_source empty_world))
     = [\<lparr>br_source = 1, br_version = Some ''1.0'', br_build_counter = 1,
         br_sha = Some ''output of git rev-parse HEAD''\<rparr>] \<and>
   record_rows (snd (build_real failing_env ''trusty'' example_source empty_world))
     = record_rows (snd (build_real example_env ''trusty'' example_source empty_world))"
proof -
  obtain tmpdir builddir rid br wa wb wc wd where
    h: "build_start failing_env example_source empty_world = (Inr (tmpdir, builddir, rid, br), wa)"
    "run_builder failing_env tmpdir builddir rid br wa
       = (Inr ([''a.changes''] @ ''b.changes'' # [''c.changes'']), wb)"
    "process_all failing_env ''trusty'' (map (path_join tmpdir) [''a.changes'']) wb = (Inr (), wc)"
    "process_changes failing_env ''trusty'' (path_join tmpdir ''b.changes'') wc
       = (Inl (CommandFailed include_b), wd)"
    and rows: "record_rows wb = [\<lparr>br_source = 1, br_version = Some ''1.0'', br_build_counter = 1,
                        br_sha = Some ''output of git rev-parse HEAD''\<rparr>]"
    using failing_run by metis
  note th = build_real_file_fails [OF h]
  show ?thesis
    using th rows successful_run by simp
qed

text \<open>
  C3, amended. Suppose a build attempt has checked out, the builder has left the changes
  files \<open>pre\<close>, \<open>f\<close> and \<open>post\<close> (in the order of the listing), every file of
  \<open>pre\<close> has been processed, and processing \<open>f\<close> raises \<open>e\<close>. Then \<^verbatim>\<open>build_real\<close>
  ends by raising \<open>e\<close>, and its final state is the state in which \<open>f\<close> failed, less
  the temporary directory: no file of \<open>post\<close> is processed and the final export is
  skipped. Every file of \<open>pre\<close> is, in the rewritten form that was included, in the
  pool and in the published index of that final state. The build records are as the
  builder left them: the failure is not recorded. With three files of which the second
  is refused by the repository tool, the index holds the first file only.
\<close>

theorem partial_publish_not_rolled_back:
  assumes "build_start env self w = (Inr (tmpdir, builddir, rid, br), wa)"
    and "run_builder env tmpdir builddir rid br wa = (Inr (pre @ f # post), wb)"
    and "process_all env series_name (map (path_join tmpdir) pre) wb = (Inr (), wc)"
    and "process_changes env series_name (path_join tmpdir f) wc = (Inl e, wd)"
  shows "build_real env series_name self w = (Inl e, rmtree tmpdir wd) \<and>
         pool (rmtree tmpdir wd) = pool wd \<and> index (rmtree tmpdir wd) = index wd \<and>
         record_rows (rmtree tmpdir wd) = record_rows wb \<and>
         (\<forall>g\<in>set pre. \<exists>m0 m.
            manifests wb (path_join tmpdir g) = Some m0 \<and>
            strip_sections ddeb_sections m0 = Inr m \<and>
            (series_name, m) \<in> set (pool wd) \<and> (series_name, m) \<in> set (index wd))"
proof -
  have "\<forall>g\<in>set pre. \<exists>m0 m.
            manifests wb (path_join tmpdir g) = Some m0 \<and>
            strip_sections ddeb_sections m0 = Inr m \<and>
            (series_name, m) \<in> set (pool wd) \<and> (series_name, m) \<in> set (index wd)"
  proof
    fix g assume "g \<in> set pre"
    then obtain m0 m where 1: "manifests wb (path_join tmpdir g) = Some m0"
      "strip_sections ddeb_sections m0 = Inr m"
      and 2: "(series_name, m) \<in> set (pool wc)" "(series_name, m) \<in> set (index wc)"
      using process_all_published [OF assms(3)] by fastforce
    from process_changes_keeps [OF assms(4) 2] 1
    show "\<exists>m0 m. manifests wb (path_join tmpdir g) = Some m0 \<and>
            strip_sections ddeb_sections m0 = Inr m \<and>
            (series_name, m) \<in> set (pool wd) \<and> (series_name, m) \<in> set (index wd)"
      by blast
  qed
  then show ?thesis
    using build_real_file_fails [OF assms] by (simp add: rmtree_def)
qed

theorem partial_publish_not_rolled_back_witness:
  "fst (build_real failing_env ''trusty'' example_source empty_world)
     = Inl (CommandFailed include_b) \<and>
   pool (snd (build_real failing_env ''trusty'' example_source empty_world))
     = [(''trusty'', stripped_of ''a'')] \<and>
   index (snd (build_real failing_env ''trusty'' example_source empty_world))
     = [(''trusty'', stripped_of ''a'')]"
proof -
  obtain tmpdir builddir rid br wa wb wc wd where
    h: "build_start failing_env example_source empty_world = (Inr (tmpdir, builddir, rid, br), wa)"
    "run_builder failing_env tmpdir builddir rid br wa
       = (Inr ([''a.changes''] @ ''b.changes'' # [''c.changes'']), wb)"
    "process_all failing_env ''trusty'' (map (path_join tmpdir) [''a.changes'']) wb = (Inr (), wc)"
    "process_changes failing_env ''trusty'' (path_join tmpdir ''b.changes'') wc
       = (Inl (CommandFailed include_b), wd)"
    and p: "pool wd = [(''trusty'', stripped_of ''a'')]" "index wd = [(''trusty'', stripped_of ''a'')]"
    using failing_run by metis
  note th = partial_publish_not_rolled_back [OF h]
  show ?thesis
    using th p by simp
qed

subsection \<open>Build logs\<close>

text \<open>
  C7. A build record fresh from \<^verbatim>\<open>__init__\<close> gets its logger while the registry holds
  at most one handler for that logger name (this module never leaves more than one).
  Lines are logged, the version is set, and the logger is got again; further lines are
  logged. Then the file at the path of the record with its version holds what the file
  at the first path held before the build, followed by every line logged before and
  every line logged after the second access, in that order and once each. When the two
  paths differ, nothing is left at the first path: the file was renamed. Lines logged
  between setting the version and the second access count as logged before.
\<close>

theorem log_continuity:
  assumes "br_saved_logpath br = None"
    and "length (log_handlers w (logger_name src br)) \<le> 1"
    and "\<forall>p i. log_dir w p = Some i \<longrightarrow> i < length (log_data w)"
    and "logger env src br w = (lg1, br1, w1)"
    and "w2 = log_lines (logger_name src br) before w1"
    and "br2 = br1\<lparr>br_version := Some v\<rparr>"
    and "logger env src br2 w2 = (lg2, br3, w3)"
    and "w4 = log_lines (logger_name src br) after w3"
  shows "read_log w4 (buildlog env src br2) =
           Some ((case read_log w (buildlog env src br) of None \<Rightarrow> [] | Some c \<Rightarrow> c)
                 @ before @ after) \<and>
         (buildlog env src br2 \<noteq> buildlog env src br \<longrightarrow>
            read_log w4 (buildlog env src br) = None) \<and>
         log_handlers w4 (logger_name src br) = log_handlers w1 (logger_name src br) \<and>
         lg2 = lg1"
proof -
  let ?name = "logger_name src br"
  let ?old = "buildlog env src br"
  let ?new = "buildlog env src br2"
  let ?prior = "case read_log w ?old of None \<Rightarrow> [] | Some c \<Rightarrow> c"
  from logger_first_state [OF assms(1-4)] obtain ino where
    h1: "log_handlers w1 ?name = [ino]" and d1: "log_dir w1 ?old = Some ino" and
    l1: "ino < length (log_data w1)" and c1: "log_data w1 ! ino = ?prior" and
    br1: "br1 = br\<lparr>br_logger := Some ?name, br_saved_logpath := Some ?old\<rparr>" and
    lg1: "lg1 = Some ?name"
    by blast
  have w2: "w2 = w1\<lparr>log_data := (log_data w1)[ino := ?prior @ before]\<rparr>"
    using log_lines_single [OF h1 l1, of before] assms(5) c1 by simp
  have name2: "logger_name src br2 = ?name"
    using assms(6) br1 by (simp add: logger_name_def)
  have saved2: "br_saved_logpath br2 = Some ?old" and lgr2: "br_logger br2 = Some ?name"
    using assms(6) br1 by simp_all
  have h2: "log_handlers w2 ?name = [ino]" and d2: "log_dir w2 ?old = Some ino"
    and l2: "ino < length (log_data w2)" and c2: "log_data w2 ! ino = ?prior @ before"
    using w2 h1 d1 l1 by simp_all
  show ?thesis
  proof (cases "?new = ?old")
    case True
    have "logger env src br2 w2 = (br_logger br2, br2, w2\<lparr>outdir_exists := True\<rparr>)"
      using logger_same [of br2 env src w2] saved2 True by simp
    then have w3: "w3 = w2\<lparr>outdir_exists := True\<rparr>" and lg2: "lg2 = Some ?name"
      using assms(7) lgr2 by simp_all
    have h3: "log_handlers w3 ?name = [ino]" and l3: "ino < length (log_data w3)"
      and c3: "log_data w3 ! ino = ?prior @ before" and d3: "log_dir w3 ?old = Some ino"
      using w3 h2 l2 c2 d2 by simp_all
    have "w4 = w3\<lparr>log_data := (log_data w3)[ino := (?prior @ before) @ after]\<rparr>"
      using log_lines_single [OF h3 l3, of after] assms(8) c3 by simp
    then show ?thesis
      using True h1 h3 d3 l3 lg1 lg2 by (simp add: read_log_def)
  next
    case False
    then have ne: "?old \<noteq> ?new"
      by simp
    have "logger env src br2 w2 =
       (Some ?name,
        br2\<lparr>br_logger := Some ?name, br_saved_logpath := Some ?new\<rparr>,
        w2\<lparr>outdir_exists := True,
          log_dir := ((log_dir w2)(?old := None))(?new \<mapsto> ino),
          log_handlers := (log_handlers w2)(?name := [ino])\<rparr>)"
      using logger_moved [OF saved2 ne buildlog_nonempty d2] h2 name2 by simp
    then have w3: "w3 = w2\<lparr>outdir_exists := True,
          log_dir := ((log_dir w2)(?old := None))(?new \<mapsto> ino),
          log_handlers := (log_handlers w2)(?name := [ino])\<rparr>" and lg2: "lg2 = Some ?name"
      using assms(7) by simp_all
    have h3: "log_handlers w3 ?name = [ino]" and l3: "ino < length (log_data w3)"
      and c3: "log_data w3 ! ino = ?prior @ before"
      using w3 l2 c2 by simp_all
    have "w4 = w3\<lparr>log_data := (log_data w3)[ino := (?prior @ before) @ after]\<rparr>"
      using log_lines_single [OF h3 l3, of after] assms(8) c3 by simp
    then show ?thesis
      using False w3 l3 lg1 lg2 h1 by (simp add: read_log_def)
  qed
qed

theorem log_continuity_witness:
  "read_log log_scenario ''/srv/public/buildlogs/anand0707_myrepo/anand0707_myrepo_1.0.log''
     = Some [''cloning'', ''building'', ''published''] \<and>
   read_log log_scenario ''/srv/public/buildlogs/anand0707_myrepo/anand0707_myrepo_1.tmp.log''
     = None"
proof -
  let ?name = "logger_name example_source fresh_record"
  obtain lg1 br1 w1 where a: "logger example_env example_source fresh_record empty_world = (lg1, br1, w1)"
    by (metis prod_cases3)
  obtain lg2 br3 w3 where b: "logger example_env example_source (br1\<lparr>br_version := Some ''1.0''\<rparr>)
                  (log_lines ?name [''cloning'', ''building''] w1) = (lg2, br3, w3)"
    by (metis prod_cases3)
  have sc: "log_scenario = log_lines ?name [''published''] w3"
    unfolding log_scenario_def a prod.case b ..
  have h1: "br_saved_logpath fresh_record = None"
    by (simp add: fresh_record_def)
  have h2: "length (log_handlers empty_world ?name) \<le> 1"
    by (simp add: empty_world_def)
  have h3: "\<forall>p i. log_dir empty_world p = Some i \<longrightarrow> i < length (log_data empty_world)"
    by (simp add: empty_world_def)
  have old: "buildlog example_env example_source fresh_record
               = ''/srv/public/buildlogs/anand0707_myrepo/anand0707_myrepo_1.tmp.log''"
    by (simp add: buildlog_def buildlogdir_def logpath_def long_name_def path_join_def
        startswith_def endswith_def truthy_def str_int_def str_nat.simps digit_char_def
        example_env_def example_source_def fresh_record_def)
  have "br1 = fresh_record\<lparr>br_logger := Some ?name,
              br_saved_logpath := Some (buildlog example_env example_source fresh_record)\<rparr>"
    using logger_first_state [OF h1 h2 h3 a] by blast
  then have new: "buildlog example_env example_source (br1\<lparr>br_version := Some ''1.0''\<rparr>)
               = ''/srv/public/buildlogs/anand0707_myrepo/anand0707_myrepo_1.0.log''"
    by (simp add: buildlog_def buildlogdir_def logpath_def long_name_def path_join_def
        startswith_def endswith_def truthy_def str_opt_def
        example_env_def example_source_def fresh_record_def)
  have prior: "read_log empty_world p = None" for p
    by (simp add: read_log_def empty_world_def)
  from log_continuity [OF h1 h2 h3 a refl refl b sc]
  show ?thesis
    by (simp add: old new prior)
qed

end
